theory Spec2Isabelle
  imports Complex_Main "HOL-Library.Log_Nat"
begin

section \<open>Machine numbers\<close>

text \<open>
  The Go code computes prices and scores in \<^verbatim>\<open>float64\<close> and converts to and from
  \<^verbatim>\<open>int64\<close>. A finite \<^verbatim>\<open>float64\<close> is modelled by the real number it denotes, and
  every arithmetic operation of the source is followed by \<open>fl\<close>, the rounding of IEEE 754
  binary64: to the nearest number with a 53-bit significand, ties to the even significand.
  Each operation is rounded on its own, as the amd64 compiler does.

  Only the normal range is modelled (no overflow to infinity, no subnormal numbers, no
  NaN). With \<^verbatim>\<open>int64\<close> inputs the two functions below stay inside it: every
  intermediate value is zero or has a magnitude between \<open>2 powi (-60)\<close> and \<open>2 powi 80\<close>.
  The sign of a zero is not modelled; the source never observes it.
\<close>

definition in_int64 :: "int \<Rightarrow> bool" where
  "in_int64 v \<longleftrightarrow> - (2 ^ 63) \<le> v \<and> v < 2 ^ 63"

definition wrap64 :: "int \<Rightarrow> int" where
  "wrap64 v = (v + 2 ^ 63) mod 2 ^ 64 - 2 ^ 63"

definition round_even :: "real \<Rightarrow> int" where
  "round_even q =
     (let f = \<lfloor>q\<rfloor>; d = q - of_int f in
      if d < 1 / 2 then f
      else if 1 / 2 < d then f + 1
      else if even f then f else f + 1)"

text \<open>\<open>expo x\<close> is the binary exponent of a positive \<open>x\<close>: \<open>2 powi expo x \<le> x < 2 powi (expo x + 1)\<close>.\<close>

definition expo :: "real \<Rightarrow> int" where
  "expo x = (if 1 \<le> x then bitlen \<lfloor>x\<rfloor> - 1 else - bitlen (\<lceil>1 / x\<rceil> - 1))"

definition fl :: "real \<Rightarrow> real" where
  "fl x =
     (if x = 0 then 0
      else let a = \<bar>x\<bar>; u = 2 powi (expo a - 52)
           in sgn x * (of_int (round_even (a / u)) * u))"

text \<open>Conversion \<^verbatim>\<open>int64(f)\<close> of a float: truncation toward zero.\<close>

definition trunc :: "real \<Rightarrow> int" where
  "trunc x = (if 0 \<le> x then \<lfloor>x\<rfloor> else \<lceil>x\<rceil>)"

section \<open>Pricing and scoring (tokens.go)\<close>

record Bid =
  TeamID :: string
  UserID :: string
  Priority :: int

definition InitialTokenCount :: int where
  "InitialTokenCount = 1000"

definition InitialReputationScore :: int where
  "InitialReputationScore = 100"

text \<open>\<^verbatim>\<open>costMap\<close>: priority to base cost. Reading a Go map at a missing key gives 0.\<close>

definition costMap :: "int \<rightharpoonup> int" where
  "costMap = [1 \<mapsto> 1, 2 \<mapsto> 1, 3 \<mapsto> 1, 4 \<mapsto> 5, 5 \<mapsto> 5, 6 \<mapsto> 5, 7 \<mapsto> 7, 8 \<mapsto> 7, 9 \<mapsto> 7, 10 \<mapsto> 10]"

definition index0 :: "(int \<rightharpoonup> int) \<Rightarrow> int \<Rightarrow> int" where
  "index0 m k = (case m k of None \<Rightarrow> 0 | Some v \<Rightarrow> v)"

definition computeBidcost :: "Bid \<Rightarrow> int \<Rightarrow> int" where
  "computeBidcost bid reputation =
     (let minMultiplier = 1;
          maxMultiplier = 5 / 2;
          priceMultiplier =
            fl (minMultiplier +
                fl (fl (maxMultiplier - minMultiplier) * fl (1 - fl (fl (of_int reputation) / 100))));
          cost = fl (fl (of_int (index0 costMap (Priority bid))) * priceMultiplier)
      in trunc cost)"

definition calculateScore :: "int \<Rightarrow> int \<Rightarrow> real" where
  "calculateScore priority reputation =
     (let maxReputation = 100;
          normalizedPriority = fl (fl (fl (of_int (wrap64 (priority - 1))) / 9) * 100);
          normalizedReputation =
            fl (fl (fl (of_int reputation) / fl (of_int maxReputation)) * 100);
          score = fl (fl (fl (7 / 10) * normalizedPriority) + fl (fl (3 / 10) * normalizedReputation))
      in score)"

text \<open>The price the specification describes, in exact arithmetic.\<close>

definition spec_price :: "int \<Rightarrow> int \<Rightarrow> int" where
  "spec_price priority reputation =
     \<lfloor>of_int (index0 costMap priority) * (1 + 3 / 2 * (1 - of_int reputation / 100)) :: real\<rfloor>"

section \<open>The tables behind the DynamoDB client\<close>

text \<open>
  \<^verbatim>\<open>Manager\<close> holds a DynamoDB client and a logger. The model keeps, in one record, what the
  receiver \<^verbatim>\<open>tm\<close> reaches: the \<^verbatim>\<open>tokens\<close> table (keyed by \<^verbatim>\<open>pk\<close>), the \<^verbatim>\<open>bids\<close> table, and
  whether \<^verbatim>\<open>tm.logger\<close> is set (\<^verbatim>\<open>NewManager\<close> leaves it nil).

  The service can fail: \<open>faults\<close> lists, for the coming client calls in order, whether the
  call fails with a service error (\<open>True\<close>); when the list is used up every call reaches the
  tables. A failed call changes no table.

  An item of \<^verbatim>\<open>tokens\<close> carries the attributes the operations read or update:
  \<^verbatim>\<open>token_balance\<close>, \<^verbatim>\<open>reputation_score\<close> and \<^verbatim>\<open>priority_usage\<close>. The last one is absent
  (\<open>None\<close>) on an item that an update created without it. DynamoDB numbers are unbounded
  integers here; reading one into an \<^verbatim>\<open>int64\<close> fails outside the \<^verbatim>\<open>int64\<close> range. The
  attributes \<^verbatim>\<open>team_id\<close> and the timestamps are written once and never read, and are left
  out, as are the sort key of a bid (team, a fresh KSUID and the time): every bid written
  is a new item, so the \<^verbatim>\<open>bids\<close> table is a list in order of writing. The keys of
  \<^verbatim>\<open>priority_usage\<close> are the decimal strings of priorities, modelled by the priorities
  themselves; its counts are assumed to fit the Go \<^verbatim>\<open>int\<close> they are decoded into.
  An update with \<^verbatim>\<open>ReturnValues: UPDATED_NEW\<close> returns only the attributes its expression
  updated, as they are after the update: for the debit these are \<^verbatim>\<open>token_balance\<close> and, inside
  \<^verbatim>\<open>priority_usage\<close>, the one entry \<^verbatim>\<open>priority_usage.#usage_key\<close>.
\<close>

record TokenDBRow =
  TokenBalance :: int
  ReputationScore :: int
  PriorityUsage :: "(int \<rightharpoonup> int) option"

record UpdatedNew =
  NewTokenBalance :: int
  NewPriorityUsage :: "int \<rightharpoonup> int"

record BidRow =
  RowPk :: string
  RowTarget :: string
  RowPriority :: int
  RowCost :: int
  RowScore :: real

record Manager =
  tokens :: "string \<rightharpoonup> TokenDBRow"
  bids :: "BidRow list"
  faults :: "bool list"
  logger :: bool

datatype dynamo_error = ServiceError | ConditionalCheckFailed | ValidationError

datatype error =
    FetchBalanceError dynamo_error
  | TeamNotFound string
  | UnmarshalError
  | InsufficientTokenBalance int
  | UpdateBalanceError dynamo_error
  | UpdateReputationError dynamo_error
  | ParseBalanceError
  | NoWinner
  | InitializeError string dynamo_error
  | RefillError string dynamo_error
  | NilLoggerPanic

definition InitialPriorityUsage :: "int \<rightharpoonup> int" where
  "InitialPriorityUsage = [1 \<mapsto> 0, 2 \<mapsto> 0, 3 \<mapsto> 0, 4 \<mapsto> 0, 5 \<mapsto> 0, 6 \<mapsto> 0, 7 \<mapsto> 0, 8 \<mapsto> 0, 9 \<mapsto> 0, 10 \<mapsto> 0]"

definition GetTokenPK :: "string \<Rightarrow> string" where
  "GetTokenPK teamID = ''team#'' @ teamID"

definition GetBidPK :: "string \<Rightarrow> string" where
  "GetBidPK teamID = ''bid#'' @ teamID"

definition dynamo_call :: "Manager \<Rightarrow> bool \<times> Manager" where
  "dynamo_call tm = (case faults tm of [] \<Rightarrow> (False, tm) | f # fs \<Rightarrow> (f, tm\<lparr>faults := fs\<rparr>))"

text \<open>\<^verbatim>\<open>GetItem\<close> on \<^verbatim>\<open>tokens\<close>.\<close>

definition GetItem :: "string \<Rightarrow> Manager \<Rightarrow> (dynamo_error + TokenDBRow option) \<times> Manager" where
  "GetItem pk tm =
     (case dynamo_call tm of
        (True, tm') \<Rightarrow> (Inl ServiceError, tm')
      | (False, tm') \<Rightarrow> (Inr (tokens tm' pk), tm'))"

text \<open>\<^verbatim>\<open>PutItem\<close> on \<^verbatim>\<open>tokens\<close> under the condition \<^verbatim>\<open>attribute_not_exists(pk)\<close>.\<close>

definition PutItem_if_absent :: "string \<Rightarrow> TokenDBRow \<Rightarrow> Manager \<Rightarrow> dynamo_error option \<times> Manager" where
  "PutItem_if_absent pk item tm =
     (case dynamo_call tm of
        (True, tm') \<Rightarrow> (Some ServiceError, tm')
      | (False, tm') \<Rightarrow>
          (case tokens tm' pk of
             Some _ \<Rightarrow> (Some ConditionalCheckFailed, tm')
           | None \<Rightarrow> (None, tm'\<lparr>tokens := (tokens tm')(pk \<mapsto> item)\<rparr>)))"

text \<open>\<^verbatim>\<open>PutItem\<close> on \<^verbatim>\<open>bids\<close>, without a condition.\<close>

definition PutItem_bid :: "BidRow \<Rightarrow> Manager \<Rightarrow> dynamo_error option \<times> Manager" where
  "PutItem_bid br tm =
     (case dynamo_call tm of
        (True, tm') \<Rightarrow> (Some ServiceError, tm')
      | (False, tm') \<Rightarrow> (None, tm'\<lparr>bids := bids tm' @ [br]\<rparr>))"

text \<open>
  The first \<^verbatim>\<open>UpdateItem\<close> of \<^verbatim>\<open>SpendTokens\<close>: under the condition
  \<^verbatim>\<open>token_balance >= :amount\<close>, set \<^verbatim>\<open>token_balance = token_balance - :amount\<close> and
  \<^verbatim>\<open>priority_usage.#usage_key = if_not_exists(priority_usage.#usage_key, :start) + :incr\<close>,
  in one write. The condition is false on a missing item; the path \<^verbatim>\<open>priority_usage.#usage_key\<close>
  is invalid on an item without \<^verbatim>\<open>priority_usage\<close>. The answer holds the two updated
  attributes.
\<close>

definition UpdateItem_spend ::
    "string \<Rightarrow> int \<Rightarrow> int \<Rightarrow> Manager \<Rightarrow> (dynamo_error + UpdatedNew) \<times> Manager" where
  "UpdateItem_spend pk amount usage_key tm =
     (case dynamo_call tm of
        (True, tm') \<Rightarrow> (Inl ServiceError, tm')
      | (False, tm') \<Rightarrow>
          (case tokens tm' pk of
             None \<Rightarrow> (Inl ConditionalCheckFailed, tm')
           | Some item \<Rightarrow>
               if \<not> TokenBalance item \<ge> amount then (Inl ConditionalCheckFailed, tm')
               else (case PriorityUsage item of
                  None \<Rightarrow> (Inl ValidationError, tm')
                | Some usage \<Rightarrow>
                    let balance' = TokenBalance item - amount;
                        count' = index0 usage usage_key + 1;
                        item' = item\<lparr>TokenBalance := balance',
                                      PriorityUsage := Some (usage(usage_key \<mapsto> count'))\<rparr>
                    in (Inr \<lparr>NewTokenBalance = balance', NewPriorityUsage = [usage_key \<mapsto> count']\<rparr>,
                        tm'\<lparr>tokens := (tokens tm')(pk \<mapsto> item')\<rparr>))))"

text \<open>
  The second \<^verbatim>\<open>UpdateItem\<close> of \<^verbatim>\<open>SpendTokens\<close>:
  \<^verbatim>\<open>SET reputation_score = reputation_score - :decrease\<close>, without a condition.
\<close>

definition UpdateItem_reputation :: "string \<Rightarrow> int \<Rightarrow> Manager \<Rightarrow> dynamo_error option \<times> Manager" where
  "UpdateItem_reputation pk decrease tm =
     (case dynamo_call tm of
        (True, tm') \<Rightarrow> (Some ServiceError, tm')
      | (False, tm') \<Rightarrow>
          (case tokens tm' pk of
             None \<Rightarrow> (Some ValidationError, tm')
           | Some item \<Rightarrow>
               (None, tm'\<lparr>tokens := (tokens tm')(pk \<mapsto> item\<lparr>ReputationScore := ReputationScore item - decrease\<rparr>)\<rparr>)))"

text \<open>
  The \<^verbatim>\<open>UpdateItem\<close> of \<^verbatim>\<open>RefillTokens\<close>: \<^verbatim>\<open>SET token_balance = :initialBalance,
  reputation_score = :initialReputation\<close>, without a condition. \<^verbatim>\<open>UpdateItem\<close> creates the
  item when the key has none.
\<close>

definition UpdateItem_refill :: "string \<Rightarrow> int \<Rightarrow> int \<Rightarrow> Manager \<Rightarrow> dynamo_error option \<times> Manager" where
  "UpdateItem_refill pk initialBalance initialReputation tm =
     (case dynamo_call tm of
        (True, tm') \<Rightarrow> (Some ServiceError, tm')
      | (False, tm') \<Rightarrow>
          (let item' = (case tokens tm' pk of
                 None \<Rightarrow> \<lparr>TokenBalance = initialBalance, ReputationScore = initialReputation,
                           PriorityUsage = None\<rparr>
               | Some item \<Rightarrow> item\<lparr>TokenBalance := initialBalance, ReputationScore := initialReputation\<rparr>)
           in (None, tm'\<lparr>tokens := (tokens tm')(pk \<mapsto> item')\<rparr>)))"

section \<open>The operations of the token manager\<close>

fun InitializeTokens :: "string list \<Rightarrow> Manager \<Rightarrow> error option \<times> Manager" where
  "InitializeTokens [] tm = (None, tm)"
| "InitializeTokens (teamID # teams) tm =
     (let item = \<lparr>TokenBalance = InitialTokenCount, ReputationScore = InitialReputationScore,
                  PriorityUsage = Some InitialPriorityUsage\<rparr>
      in case PutItem_if_absent (GetTokenPK teamID) item tm of
           (None, tm') \<Rightarrow> InitializeTokens teams tm'
         | (Some ConditionalCheckFailed, tm') \<Rightarrow> InitializeTokens teams tm'
         | (Some e, tm') \<Rightarrow> (Some (InitializeError teamID e), tm'))"

definition GetTokenBalance :: "string \<Rightarrow> Manager \<Rightarrow> (error + int \<times> int) \<times> Manager" where
  "GetTokenBalance teamID tm =
     (case GetItem (GetTokenPK teamID) tm of
        (Inl e, tm') \<Rightarrow> (Inl (FetchBalanceError e), tm')
      | (Inr None, tm') \<Rightarrow> (Inl (TeamNotFound teamID), tm')
      | (Inr (Some row), tm') \<Rightarrow>
          if in_int64 (TokenBalance row) \<and> in_int64 (ReputationScore row)
          then (Inr (TokenBalance row, ReputationScore row), tm')
          else (Inl UnmarshalError, tm'))"

definition SpendTokens :: "Bid \<Rightarrow> Manager \<Rightarrow> (error + int) \<times> Manager" where
  "SpendTokens bid tm =
     (case GetTokenBalance (TeamID bid) tm of
        (Inl e, tm1) \<Rightarrow> (Inl e, tm1)
      | (Inr (balance, reputation), tm1) \<Rightarrow>
          let bidCost = computeBidcost bid reputation in
          if balance < bidCost then (Inl (InsufficientTokenBalance balance), tm1)
          else
            (case UpdateItem_spend (GetTokenPK (TeamID bid)) bidCost (Priority bid) tm1 of
               (Inl e, tm2) \<Rightarrow> (Inl (UpdateBalanceError e), tm2)
             | (Inr output, tm2) \<Rightarrow>
                 let priorityUsage = NewPriorityUsage output;
                     newBalance = (if in_int64 (NewTokenBalance output) then Inr (NewTokenBalance output)
                                   else Inl ParseBalanceError)
                 in if index0 priorityUsage 10 > 5
                    then (case UpdateItem_reputation (GetTokenPK (TeamID bid)) 10 tm2 of
                            (Some e, tm3) \<Rightarrow> (Inl (UpdateReputationError e), tm3)
                          | (None, tm3) \<Rightarrow> (newBalance, tm3))
                    else (newBalance, tm2)))"

text \<open>
  \<^verbatim>\<open>RecordBid\<close> assigns the error of \<^verbatim>\<open>PutItem\<close> to \<^verbatim>\<open>err\<close> and then returns \<^verbatim>\<open>nil\<close>.
  Marshalling a \<^verbatim>\<open>BidRow\<close> with a finite score does not fail.
\<close>

definition RecordBid :: "Bid \<Rightarrow> int \<Rightarrow> real \<Rightarrow> Manager \<Rightarrow> error option \<times> Manager" where
  "RecordBid bid cost score tm =
     (let br = \<lparr>RowPk = GetBidPK (TeamID bid), RowTarget = UserID bid, RowPriority = Priority bid,
                RowCost = cost, RowScore = score\<rparr>
      in case PutItem_bid br tm of (err, tm') \<Rightarrow> (None, tm'))"

text \<open>
  The loop of \<^verbatim>\<open>RunAuction\<close> over \<^verbatim>\<open>bids\<close>; its variables are \<^verbatim>\<open>winningBid\<close> (nil at first),
  \<^verbatim>\<open>winningBidCost\<close> and \<^verbatim>\<open>maxScore\<close>. Each iteration has its own \<^verbatim>\<open>bid\<close> variable (Go 1.22
  and later), so \<^verbatim>\<open>winningBid\<close> keeps the bid it was set to. \<^verbatim>\<open>tm.logger.Warn\<close> on a nil
  logger panics.
\<close>

fun auction_loop ::
    "Bid list \<Rightarrow> Bid option \<times> int \<times> real \<Rightarrow> Manager \<Rightarrow> (error + Bid option \<times> int \<times> real) \<times> Manager" where
  "auction_loop [] vars tm = (Inr vars, tm)"
| "auction_loop (bid # rest) (winningBid, winningBidCost, maxScore) tm =
     (case GetTokenBalance (TeamID bid) tm of
        (Inl err, tm1) \<Rightarrow> (Inl err, tm1)
      | (Inr (balance, reputation), tm1) \<Rightarrow>
          let bidScore = calculateScore (Priority bid) reputation;
              bidCost = computeBidcost bid reputation
          in (case RecordBid bid bidCost bidScore tm1 of
                (Some err, tm2) \<Rightarrow> (Inl err, tm2)
              | (None, tm2) \<Rightarrow>
                  if balance < bidCost
                  then (if logger tm2
                        then auction_loop rest (winningBid, winningBidCost, maxScore) tm2
                        else (Inl NilLoggerPanic, tm2))
                  else if bidScore > maxScore
                  then auction_loop rest (Some bid, bidCost, bidScore) tm2
                  else auction_loop rest (winningBid, winningBidCost, maxScore) tm2))"

definition RunAuction :: "Bid list \<Rightarrow> Manager \<Rightarrow> (error + string) \<times> Manager" where
  "RunAuction bidlist tm =
     (case auction_loop bidlist (None, 0, 0) tm of
        (Inl err, tm1) \<Rightarrow> (Inl err, tm1)
      | (Inr (None, _, _), tm1) \<Rightarrow> (Inl NoWinner, tm1)
      | (Inr (Some winningBid, _, _), tm1) \<Rightarrow>
          (case SpendTokens winningBid tm1 of
             (Inl err, tm2) \<Rightarrow> (Inl err, tm2)
           | (Inr _, tm2) \<Rightarrow> (Inr (TeamID winningBid), tm2)))"

fun RefillTokens :: "string list \<Rightarrow> Manager \<Rightarrow> error option \<times> Manager" where
  "RefillTokens [] tm = (None, tm)"
| "RefillTokens (teamID # teams) tm =
     (case UpdateItem_refill teamID InitialTokenCount InitialReputationScore tm of
        (Some e, tm') \<Rightarrow> (Some (RefillError teamID e), tm')
      | (None, tm') \<Rightarrow> RefillTokens teams tm')"

section \<open>Example states\<close>

text \<open>A manager as \<^verbatim>\<open>NewManager\<close> returns it (no logger), on empty tables.\<close>

definition NewManager :: "bool list \<Rightarrow> Manager" where
  "NewManager fs = \<lparr>tokens = Map.empty, bids = [], faults = fs, logger = False\<rparr>"

text \<open>The tables with one account, of team \<^verbatim>\<open>A\<close>, as \<^verbatim>\<open>InitializeTokens\<close> writes it but
  with the given balance, reputation and count of debits at priority 10.\<close>

definition account_A :: "int \<Rightarrow> int \<Rightarrow> int \<Rightarrow> bool list \<Rightarrow> Manager" where
  "account_A balance reputation used10 fs =
     \<lparr>tokens = [''team#A'' \<mapsto> \<lparr>TokenBalance = balance, ReputationScore = reputation,
                                PriorityUsage = Some (InitialPriorityUsage(10 \<mapsto> used10))\<rparr>],
      bids = [], faults = fs, logger = False\<rparr>"

definition bid_A :: "int \<Rightarrow> Bid" where
  "bid_A priority = \<lparr>TeamID = ''A'', UserID = ''123'', Priority = priority\<rparr>"

text \<open>The same with two accounts, of teams \<^verbatim>\<open>A\<close> and \<^verbatim>\<open>B\<close>; each is given by its balance,
  reputation and count of debits at priority 10.\<close>

definition account_row :: "int \<times> int \<times> int \<Rightarrow> TokenDBRow" where
  "account_row a = (case a of (balance, reputation, used10) \<Rightarrow>
     \<lparr>TokenBalance = balance, ReputationScore = reputation,
      PriorityUsage = Some (InitialPriorityUsage(10 \<mapsto> used10))\<rparr>)"

definition accounts_AB :: "int \<times> int \<times> int \<Rightarrow> int \<times> int \<times> int \<Rightarrow> Manager" where
  "accounts_AB a b =
     \<lparr>tokens = [''team#A'' \<mapsto> account_row a, ''team#B'' \<mapsto> account_row b],
      bids = [], faults = [], logger = False\<rparr>"

definition bid_B :: "int \<Rightarrow> Bid" where
  "bid_B priority = \<lparr>TeamID = ''B'', UserID = ''123'', Priority = priority\<rparr>"

section \<open>Reachable states\<close>

text \<open>
  The states of the tables that the public operations produce from empty tables. Any
  operation may run with any arguments, the service may fail at any call, and a manager
  with or without a logger may be in use.
\<close>

inductive reachable :: "Manager \<Rightarrow> bool" where
  start: "reachable \<lparr>tokens = Map.empty, bids = [], faults = fs, logger = lg\<rparr>"
| environment: "reachable tm \<Longrightarrow> reachable (tm\<lparr>faults := fs, logger := lg\<rparr>)"
| initialize: "reachable tm \<Longrightarrow> reachable (snd (InitializeTokens teams tm))"
| spend: "reachable tm \<Longrightarrow> reachable (snd (SpendTokens bid tm))"
| auction: "reachable tm \<Longrightarrow> reachable (snd (RunAuction bidlist tm))"
| refill: "reachable tm \<Longrightarrow> reachable (snd (RefillTokens teams tm))"

section \<open>Evaluation rules\<close>

lemma fl_unfold:
  "fl x = (if x = 0 then 0
           else sgn x * (of_int (round_even (\<bar>x\<bar> / 2 powi (expo \<bar>x\<bar> - 52))) * 2 powi (expo \<bar>x\<bar> - 52)))"
  by (simp add: fl_def Let_def)

lemma round_even_unfold:
  "round_even q =
     (if q - of_int \<lfloor>q\<rfloor> < 1 / 2 then \<lfloor>q\<rfloor>
      else if 1 / 2 < q - of_int \<lfloor>q\<rfloor> then \<lfloor>q\<rfloor> + 1
      else if even \<lfloor>q\<rfloor> then \<lfloor>q\<rfloor> else \<lfloor>q\<rfloor> + 1)"
  by (simp add: round_even_def Let_def)

lemma computeBidcost_unfold:
  "computeBidcost bid reputation =
     trunc (fl (fl (of_int (index0 costMap (Priority bid))) *
       fl (1 + fl (fl (5 / 2 - 1) * fl (1 - fl (fl (of_int reputation) / 100))))))"
  by (simp add: computeBidcost_def Let_def)

lemma calculateScore_unfold:
  "calculateScore priority reputation =
     fl (fl (fl (7 / 10) * fl (fl (fl (of_int (wrap64 (priority - 1))) / 9) * 100)) +
         fl (fl (3 / 10) * fl (fl (fl (of_int reputation) / fl 100) * 100)))"
  by (simp add: calculateScore_def Let_def)

section \<open>Rounding is monotone\<close>

lemma powi_nat: "0 \<le> k \<Longrightarrow> (2::real) powi k = 2 ^ nat k"
  by (simp add: power_int_def)

lemma expo_ge1:
  assumes "1 \<le> x"
  shows "2 powi expo x \<le> x \<and> x < 2 powi (expo x + 1)"
proof -
  let ?n = "\<lfloor>x\<rfloor>"
  have n: "0 < ?n" using assms by simp
  have b1: "1 \<le> bitlen ?n" using n by (simp add: bitlen_alt_def)
  from bitlen_bounds[OF n] have lo: "2 ^ nat (bitlen ?n - 1) \<le> ?n" and hi: "?n < 2 ^ nat (bitlen ?n)"
    by auto
  have e: "expo x = bitlen ?n - 1" using assms by (simp add: expo_def)
  have "(2::real) ^ nat (bitlen ?n - 1) = of_int (2 ^ nat (bitlen ?n - 1))" by simp
  also have "\<dots> \<le> of_int ?n" using lo by (simp only: of_int_le_iff)
  also have "\<dots> \<le> x" by simp
  finally have L: "2 powi expo x \<le> x" using b1 by (simp add: e powi_nat)
  have "?n + 1 \<le> 2 ^ nat (bitlen ?n)" using hi by simp
  then have "of_int (?n + 1) \<le> (of_int (2 ^ nat (bitlen ?n)) :: real)" by (simp only: of_int_le_iff)
  then have "of_int ?n + 1 \<le> (2::real) ^ nat (bitlen ?n)" by simp
  moreover have "x < of_int ?n + 1" by linarith
  ultimately have "x < 2 ^ nat (bitlen ?n)" by linarith
  then have U: "x < 2 powi (expo x + 1)" using b1 by (simp add: e powi_nat)
  from L U show ?thesis by simp
qed

lemma expo_lt1:
  assumes "0 < x" "x < 1"
  shows "2 powi expo x \<le> x \<and> x < 2 powi (expo x + 1)"
proof -
  let ?m = "\<lceil>1 / x\<rceil> - 1"
  have inv: "1 < 1 / x" using assms by simp
  then have m: "0 < ?m" by linarith
  have b1: "1 \<le> bitlen ?m" using m by (simp add: bitlen_alt_def)
  from bitlen_bounds[OF m] have lo: "2 ^ nat (bitlen ?m - 1) \<le> ?m" and hi: "?m < 2 ^ nat (bitlen ?m)"
    by auto
  have e: "expo x = - bitlen ?m" using assms by (simp add: expo_def)
  have "?m + 1 \<le> 2 ^ nat (bitlen ?m)" using hi by simp
  then have "of_int (?m + 1) \<le> (of_int (2 ^ nat (bitlen ?m)) :: real)" by (simp only: of_int_le_iff)
  then have "of_int \<lceil>1 / x\<rceil> \<le> (2::real) ^ nat (bitlen ?m)" by simp
  moreover have "1 / x \<le> of_int \<lceil>1 / x\<rceil>" by simp
  ultimately have "1 / x \<le> 2 ^ nat (bitlen ?m)" by linarith
  then have "1 \<le> 2 ^ nat (bitlen ?m) * x" using assms by (simp add: field_simps)
  then have "1 / 2 ^ nat (bitlen ?m) \<le> x" by (simp add: field_simps)
  then have L: "2 powi expo x \<le> x" using b1 by (simp add: e power_int_minus powi_nat field_simps)
  have "(of_int (2 ^ nat (bitlen ?m - 1)) :: real) \<le> of_int ?m" using lo by (simp only: of_int_le_iff)
  then have "(2::real) ^ nat (bitlen ?m - 1) \<le> of_int ?m" by simp
  moreover have "of_int ?m < 1 / x" by linarith
  ultimately have "2 ^ nat (bitlen ?m - 1) < 1 / x" by linarith
  then have "2 ^ nat (bitlen ?m - 1) * x < 1" using assms by (simp add: field_simps)
  then have "x < 1 / 2 ^ nat (bitlen ?m - 1)" by (simp add: field_simps)
  moreover have "expo x + 1 = - (bitlen ?m - 1)" by (simp add: e)
  ultimately have U: "x < 2 powi (expo x + 1)" using b1
    by (simp only: power_int_minus) (simp add: powi_nat field_simps)
  from L U show ?thesis by simp
qed

lemma expo_bounds: "0 < x \<Longrightarrow> 2 powi expo x \<le> x \<and> x < 2 powi (expo x + 1)"
  using expo_ge1 [of x] expo_lt1 [of x] by (cases "1 \<le> x") auto

lemma round_even_of_int: "round_even (of_int n) = n"
  by (simp add: round_even_unfold)

lemma round_even_mono:
  assumes "x \<le> y"
  shows "round_even x \<le> round_even y"
proof (cases "\<lfloor>x\<rfloor> = \<lfloor>y\<rfloor>")
  case True
  then show ?thesis using assms unfolding round_even_unfold by (auto; linarith)
next
  case False
  then have "\<lfloor>x\<rfloor> < \<lfloor>y\<rfloor>" using assms floor_mono [of x y] by linarith
  then have "\<lfloor>x\<rfloor> + 1 \<le> \<lfloor>y\<rfloor>" by simp
  moreover have "round_even x \<le> \<lfloor>x\<rfloor> + 1" unfolding round_even_unfold by auto
  moreover have "\<lfloor>y\<rfloor> \<le> round_even y" unfolding round_even_unfold by auto
  ultimately show ?thesis by linarith
qed

lemma expo_mono:
  assumes "0 < x" "x \<le> y"
  shows "expo x \<le> expo y"
proof (rule ccontr)
  assume "\<not> expo x \<le> expo y"
  then have "expo y + 1 \<le> expo x" by simp
  then have "(2::real) powi (expo y + 1) \<le> 2 powi expo x"
    by (intro power_int_increasing) auto
  moreover have "y < 2 powi (expo y + 1)" using expo_bounds [of y] assms by simp
  moreover have "2 powi expo x \<le> x" using expo_bounds [of x] assms by simp
  ultimately show False using assms by linarith
qed

lemma fl_pos_unfold:
  "0 < x \<Longrightarrow> fl x = of_int (round_even (x / 2 powi (expo x - 52))) * 2 powi (expo x - 52)"
  by (simp add: fl_unfold)

lemma fl_pos_bounds:
  assumes "0 < x"
  shows "2 powi expo x \<le> fl x \<and> fl x \<le> 2 powi (expo x + 1)"
proof -
  let ?u = "(2::real) powi (expo x - 52)"
  have u: "0 < ?u" by simp
  have p52: "2 powi expo x = 2 ^ 52 * ?u" by (simp add: power_int_diff)
  have p53: "2 powi (expo x + 1) = 2 ^ 53 * ?u" by (simp add: power_int_diff power_int_add)
  from expo_bounds [OF assms] have "2 ^ 52 * ?u \<le> x \<and> x < 2 ^ 53 * ?u"
    by (simp only: p52 p53)
  then have "2 ^ 52 * ?u \<le> x" "x \<le> 2 ^ 53 * ?u"
    by linarith+
  then have q: "of_int (2 ^ 52) \<le> x / ?u" "x / ?u \<le> of_int (2 ^ 53)"
    using u by (simp_all add: field_simps)
  have "round_even (of_int (2 ^ 52)) \<le> round_even (x / ?u)"
    "round_even (x / ?u) \<le> round_even (of_int (2 ^ 53))"
    using q by (simp_all only: round_even_mono)
  then have "2 ^ 52 \<le> round_even (x / ?u)" "round_even (x / ?u) \<le> 2 ^ 53"
    by (simp_all only: round_even_of_int)
  then have "(of_int (2 ^ 52) :: real) \<le> of_int (round_even (x / ?u))"
    "(of_int (round_even (x / ?u)) :: real) \<le> of_int (2 ^ 53)"
    by (simp_all only: of_int_le_iff)
  then have "2 ^ 52 * ?u \<le> of_int (round_even (x / ?u)) * ?u"
    "of_int (round_even (x / ?u)) * ?u \<le> 2 ^ 53 * ?u"
    using u by simp_all
  then show ?thesis using assms by (simp only: p52 p53 fl_pos_unfold)
qed

lemma fl_mono_pos:
  assumes "0 < x" "x \<le> y"
  shows "fl x \<le> fl y"
proof (cases "expo x = expo y")
  case True
  let ?u = "(2::real) powi (expo x - 52)"
  have u: "0 < ?u" by simp
  have "x / ?u \<le> y / ?u" using assms u by (simp add: divide_right_mono)
  then have "round_even (x / ?u) \<le> round_even (y / ?u)" by (rule round_even_mono)
  then have "(of_int (round_even (x / ?u)) :: real) \<le> of_int (round_even (y / ?u))" by simp
  then have "of_int (round_even (x / ?u)) * ?u \<le> of_int (round_even (y / ?u)) * ?u"
    using u by simp
  then show ?thesis using assms True by (simp add: fl_pos_unfold)
next
  case False
  then have "expo x + 1 \<le> expo y" using expo_mono [OF assms] by simp
  then have "(2::real) powi (expo x + 1) \<le> 2 powi expo y"
    by (intro power_int_increasing) auto
  moreover have "fl x \<le> 2 powi (expo x + 1)" using fl_pos_bounds [of x] assms by simp
  moreover have "2 powi expo y \<le> fl y" using fl_pos_bounds [of y] assms by simp
  ultimately show ?thesis by linarith
qed

lemma fl_zero: "fl 0 = 0"
  by (simp add: fl_def)

lemma fl_minus: "fl (- x) = - fl x"
  by (simp add: fl_unfold sgn_minus)

lemma fl_pos: "0 < x \<Longrightarrow> 0 < fl x"
proof -
  assume "0 < x"
  then have "2 powi expo x \<le> fl x" using fl_pos_bounds by simp
  moreover have "(0::real) < 2 powi expo x" by simp
  ultimately show ?thesis by linarith
qed

lemma fl_mono:
  assumes "x \<le> y"
  shows "fl x \<le> fl y"
proof -
  consider "0 < x" | "x = 0" "0 < y" | "x = 0" "y = 0" | "x < 0" "0 \<le> y" | "x < 0" "y < 0"
    using assms by linarith
  then show ?thesis
  proof cases
    case 1
    then show ?thesis using assms by (rule fl_mono_pos)
  next
    case 2
    then show ?thesis using fl_pos [of y] by (simp add: fl_zero)
  next
    case 3
    then show ?thesis by simp
  next
    case 4
    have "0 < fl (- x)" using 4 fl_pos [of "- x"] by simp
    then have "fl x < 0" by (simp add: fl_minus)
    moreover have "0 \<le> fl y" using 4 fl_pos [of y] by (cases "y = 0") (auto simp: fl_zero)
    ultimately show ?thesis by linarith
  next
    case 5
    then have "fl (- y) \<le> fl (- x)" using assms by (intro fl_mono_pos) auto
    then show ?thesis by (simp add: fl_minus)
  qed
qed

lemmas fl_eval =
  fl_unfold [of "numeral a" for a]
  fl_unfold [of "numeral a / numeral b" for a b]
  fl_unfold [of "1 / numeral b" for b]
  fl_unfold [of "- numeral a" for a]
  fl_unfold [of "- (numeral a / numeral b)" for a b]
  fl_unfold [of "- (1 / numeral b)" for b]
  fl_unfold [of 1]
  fl_unfold [of "- 1"]
  fl_zero
  round_even_unfold [of "numeral a" for a]
  round_even_unfold [of "numeral a / numeral b" for a b]
  expo_def [of "numeral a" for a]
  expo_def [of "numeral a / numeral b" for a b]
  expo_def [of "1 / numeral b" for b]
  expo_def [of 1]
  compute_bitlen [of "numeral a" for a]
  compute_bitlen [of 1]
  power_int_minus [of _ "numeral a" for a]
  trunc_def [of "numeral a" for a]
  trunc_def [of "numeral a / numeral b" for a b]
  trunc_def [of "1 / numeral b" for b]
  trunc_def [of "- numeral a" for a]
  trunc_def [of "- (numeral a / numeral b)" for a b]
  trunc_def [of "- (1 / numeral b)" for b]
  trunc_def [of 0]
  trunc_def [of 1]
  trunc_def [of "- 1"]

lemma ball_int_unfold:
  "(\<forall>r\<in>{l..u::int}. P r) \<longleftrightarrow> (if u < l then True else P l \<and> (\<forall>r\<in>{l + 1..u}. P r))"
proof (cases "u < l")
  case True
  then show ?thesis by simp
next
  case False
  then have "{l..u} = insert l {l + 1..u}" by auto
  then show ?thesis using False by simp
qed

lemmas ball_int_eval =
  ball_int_unfold [of "numeral l" "numeral u" for l u]
  ball_int_unfold [of 0 "numeral u" for u]
  ball_int_unfold [of 1 "numeral u" for u]

section \<open>The price (C8, C9)\<close>

lemma trunc_of_int: "trunc (of_int n) = n"
  by (simp add: trunc_def)

lemma trunc_mono:
  assumes "x \<le> y"
  shows "trunc x \<le> trunc y"
proof -
  have "\<lfloor>x\<rfloor> \<le> \<lfloor>y\<rfloor>" "\<lceil>x\<rceil> \<le> \<lceil>y\<rceil>"
    using assms by (simp_all add: floor_mono ceiling_mono)
  moreover have "\<lfloor>y\<rfloor> \<le> \<lceil>y\<rceil>" "\<lfloor>x\<rfloor> \<le> \<lceil>x\<rceil>" by linarith+
  moreover have "x < 0 \<Longrightarrow> \<lceil>x\<rceil> \<le> 0" by (simp add: ceiling_le_iff)
  moreover have "0 \<le> y \<Longrightarrow> 0 \<le> \<lfloor>y\<rfloor>" by simp
  ultimately show ?thesis unfolding trunc_def by (auto; linarith)
qed

lemma costMap_nonneg: "0 \<le> index0 costMap p"
  by (simp add: index0_def costMap_def)

lemma costMap_tiers:
  "1 \<le> p \<Longrightarrow> p \<le> 10 \<Longrightarrow>
   index0 costMap p = (if p \<le> 3 then 1 else if p \<le> 6 then 5 else if p \<le> 9 then 7 else 10)"
proof -
  assume "1 \<le> p" "p \<le> 10"
  then have "p = 1 \<or> p = 2 \<or> p = 3 \<or> p = 4 \<or> p = 5 \<or> p = 6 \<or> p = 7 \<or> p = 8 \<or> p = 9 \<or> p = 10"
    by arith
  then show ?thesis by (auto simp: index0_def costMap_def)
qed

lemma fl_of_int_nonneg: "0 \<le> n \<Longrightarrow> 0 \<le> fl (of_int n)"
  using fl_mono [of 0 "of_int n"] by (simp add: fl_zero)

lemma fl_one: "fl 1 = 1"
  by (simp add: fl_eval)

lemma fl_hundred: "fl 100 = 100"
  by (simp add: fl_eval)

lemma fl_spread: "fl (5 / 2 - 1) = 3 / 2"
proof -
  have "fl (3 / 2) = 3 / 2" by (simp add: fl_eval)
  then show ?thesis by simp
qed

lemma priceMultiplier_antimono:
  assumes "r1 \<le> r2"
  shows "fl (1 + fl (fl (5 / 2 - 1) * fl (1 - fl (fl (of_int r2) / 100))))
       \<le> fl (1 + fl (fl (5 / 2 - 1) * fl (1 - fl (fl (of_int r1) / 100))))"
proof -
  have "fl (of_int r1) \<le> fl (of_int r2)" using assms by (intro fl_mono) simp
  then have "fl (fl (of_int r1) / 100) \<le> fl (fl (of_int r2) / 100)"
    by (intro fl_mono) (simp add: divide_right_mono)
  then have "fl (1 - fl (fl (of_int r2) / 100)) \<le> fl (1 - fl (fl (of_int r1) / 100))"
    by (intro fl_mono) simp
  then have "fl (fl (5 / 2 - 1) * fl (1 - fl (fl (of_int r2) / 100)))
           \<le> fl (fl (5 / 2 - 1) * fl (1 - fl (fl (of_int r1) / 100)))"
    unfolding fl_spread by (intro fl_mono) simp
  then show ?thesis by (intro fl_mono) simp
qed

lemma computeBidcost_antimono:
  assumes "r1 \<le> r2"
  shows "computeBidcost bid r2 \<le> computeBidcost bid r1"
proof -
  have "0 \<le> fl (of_int (index0 costMap (Priority bid)))"
    by (rule fl_of_int_nonneg) (rule costMap_nonneg)
  then show ?thesis
    unfolding computeBidcost_unfold
    by (intro trunc_mono fl_mono mult_left_mono priceMultiplier_antimono assms)
qed

lemma priceMultiplier_ge_one:
  assumes "r \<le> 100"
  shows "1 \<le> fl (1 + fl (fl (5 / 2 - 1) * fl (1 - fl (fl (of_int r) / 100))))"
proof -
  have "fl (1 + fl (fl (5 / 2 - 1) * fl (1 - fl (fl (of_int (100::int)) / 100))))
      \<le> fl (1 + fl (fl (5 / 2 - 1) * fl (1 - fl (fl (of_int r) / 100))))"
    using assms by (rule priceMultiplier_antimono)
  moreover have "fl (1 + fl (fl (5 / 2 - 1) * fl (1 - fl (fl (of_int (100::int)) / 100)))) = 1"
    by (simp add: fl_eval)
  ultimately show ?thesis by simp
qed

lemma fl_small_int:
  "n \<in> {1, 5, 7, 10} \<Longrightarrow> fl (of_int n) = of_int n"
  by (auto simp: fl_eval)

lemma computeBidcost_ge_base:
  assumes "1 \<le> Priority bid" "Priority bid \<le> 10" "r \<le> 100"
  shows "index0 costMap (Priority bid) \<le> computeBidcost bid r"
proof -
  let ?b = "index0 costMap (Priority bid)"
  let ?pm = "fl (1 + fl (fl (5 / 2 - 1) * fl (1 - fl (fl (of_int r) / 100))))"
  have "?b \<in> {1, 5, 7, 10}" using costMap_tiers [OF assms(1,2)] by auto
  then have b: "fl (of_int ?b) = of_int ?b" by (rule fl_small_int)
  have "0 \<le> (of_int ?b :: real)" using costMap_nonneg by simp
  then have "of_int ?b * 1 \<le> of_int ?b * ?pm"
    using priceMultiplier_ge_one [OF assms(3)] by (intro mult_left_mono)
  then have "fl (of_int ?b) \<le> fl (of_int ?b * ?pm)" by (intro fl_mono) simp
  then have "trunc (of_int ?b) \<le> trunc (fl (of_int ?b * ?pm))" unfolding b by (rule trunc_mono)
  then show ?thesis by (simp add: computeBidcost_unfold b trunc_of_int)
qed

lemma price_table_1:
  "\<forall>r\<in>{0..100}. trunc (fl (fl 1 * fl (1 + fl (fl (5 / 2 - 1) * fl (1 - fl (fl (of_int r) / 100)))))) =
      \<lfloor>1 * (1 + 3 / 2 * (1 - of_int r / 100)) :: real\<rfloor>"
  by (simp add: ball_int_eval fl_eval)

lemma price_table_5:
  "\<forall>r\<in>{0..100}. trunc (fl (fl 5 * fl (1 + fl (fl (5 / 2 - 1) * fl (1 - fl (fl (of_int r) / 100)))))) =
      \<lfloor>5 * (1 + 3 / 2 * (1 - of_int r / 100)) :: real\<rfloor>"
  by (simp add: ball_int_eval fl_eval)

lemma price_table_7:
  "\<forall>r\<in>{0..100}. trunc (fl (fl 7 * fl (1 + fl (fl (5 / 2 - 1) * fl (1 - fl (fl (of_int r) / 100)))))) =
      \<lfloor>7 * (1 + 3 / 2 * (1 - of_int r / 100)) :: real\<rfloor>"
  by (simp add: ball_int_eval fl_eval)

lemma price_table_10:
  "\<forall>r\<in>{0..100}. r \<noteq> 80 \<longrightarrow>
      trunc (fl (fl 10 * fl (1 + fl (fl (5 / 2 - 1) * fl (1 - fl (fl (of_int r) / 100)))))) =
      \<lfloor>10 * (1 + 3 / 2 * (1 - of_int r / 100)) :: real\<rfloor>"
  by (simp add: ball_int_eval fl_eval)

lemma computeBidcost_eq_spec_price:
  assumes "1 \<le> Priority bid" "Priority bid \<le> 10" "0 \<le> r" "r \<le> 100"
    and "\<not> (Priority bid = 10 \<and> r = 80)"
  shows "computeBidcost bid r = spec_price (Priority bid) r"
proof -
  have r: "r \<in> {0..100}" using assms by simp
  let ?b = "index0 costMap (Priority bid)"
  have tiers: "?b = (if Priority bid \<le> 3 then 1 else if Priority bid \<le> 6 then 5
                    else if Priority bid \<le> 9 then 7 else 10)"
    using assms(1,2) by (rule costMap_tiers)
  consider (t1) "Priority bid \<le> 3" | (t2) "3 < Priority bid" "Priority bid \<le> 6"
    | (t3) "6 < Priority bid" "Priority bid \<le> 9" | (t4) "Priority bid = 10"
    using assms(2) by linarith
  then show ?thesis
  proof cases
    case t1
    then have "?b = 1" using tiers by simp
    then show ?thesis using bspec [OF price_table_1 r]
      by (simp only: computeBidcost_unfold spec_price_def of_int_1)
  next
    case t2
    then have "?b = 5" using tiers by simp
    then show ?thesis using bspec [OF price_table_5 r]
      by (simp only: computeBidcost_unfold spec_price_def of_int_numeral)
  next
    case t3
    then have "?b = 7" using tiers by simp
    then show ?thesis using bspec [OF price_table_7 r]
      by (simp only: computeBidcost_unfold spec_price_def of_int_numeral)
  next
    case t4
    then have "?b = 10" using tiers by simp
    moreover have "r \<noteq> 80" using t4 assms(5) by simp
    ultimately show ?thesis using bspec [OF price_table_10 r]
      by (simp only: computeBidcost_unfold spec_price_def of_int_numeral) simp
  qed
qed

text \<open>
  C8 (as stated, fails). The claim says the price is non-negative for every integer
  reputation and equals the floor of the exact product. At priority 10 and reputation 200
  the price is negative, and at priority 10 and reputation 80 the float64 computation gives
  12 where the exact product is 13.
\<close>

theorem C8_price_counterexample:
  "computeBidcost \<lparr>TeamID = ''A'', UserID = ''u'', Priority = 10\<rparr> 200 = - 5 \<and>
   computeBidcost \<lparr>TeamID = ''A'', UserID = ''u'', Priority = 10\<rparr> 80 = 12 \<and>
   spec_price 10 80 = 13"
  by (simp add: computeBidcost_unfold spec_price_def fl_eval index0_def costMap_def)

text \<open>
  C8 (amended). For every priority in 1..10 the base cost is 1 for priorities 1 to 3, 5 for
  4 to 6, 7 for 7 to 9 and 10 for priority 10. For every integer reputation up to 100
  (negative ones included) the price is at least the base cost, hence positive. For every
  reputation in 0..100 the price equals the floor of
  \<open>baseCost * (1 + 1.5 * (1 - reputation / 100))\<close>, except at priority 10 and reputation 80.
\<close>

theorem C8_price_amended:
  assumes "1 \<le> Priority bid" and "Priority bid \<le> 10"
  shows "index0 costMap (Priority bid) =
           (if Priority bid \<le> 3 then 1 else if Priority bid \<le> 6 then 5
            else if Priority bid \<le> 9 then 7 else 10) \<and>
         (r \<le> 100 \<longrightarrow>
            0 < index0 costMap (Priority bid) \<and>
            index0 costMap (Priority bid) \<le> computeBidcost bid r) \<and>
         (0 \<le> r \<and> r \<le> 100 \<and> \<not> (Priority bid = 10 \<and> r = 80) \<longrightarrow>
            computeBidcost bid r = spec_price (Priority bid) r)"
proof (intro conjI impI)
  show tiers: "index0 costMap (Priority bid) =
           (if Priority bid \<le> 3 then 1 else if Priority bid \<le> 6 then 5
            else if Priority bid \<le> 9 then 7 else 10)"
    using assms by (rule costMap_tiers)
  then show "0 < index0 costMap (Priority bid)"
    by (simp split: if_splits)
  show "index0 costMap (Priority bid) \<le> computeBidcost bid r" if "r \<le> 100"
    using assms that by (rule computeBidcost_ge_base)
  show "computeBidcost bid r = spec_price (Priority bid) r"
    if "0 \<le> r \<and> r \<le> 100 \<and> \<not> (Priority bid = 10 \<and> r = 80)"
    using assms that by (intro computeBidcost_eq_spec_price) auto
qed

theorem C8_price_amended_witness:
  "index0 costMap (Priority \<lparr>TeamID = ''A'', UserID = ''u'', Priority = 5\<rparr>) = 5 \<and>
   5 \<le> computeBidcost \<lparr>TeamID = ''A'', UserID = ''u'', Priority = 5\<rparr> (- 30) \<and>
   computeBidcost \<lparr>TeamID = ''A'', UserID = ''u'', Priority = 5\<rparr> 60 = spec_price 5 60 \<and>
   spec_price 5 60 = 8"
  using C8_price_amended [of "\<lparr>TeamID = ''A'', UserID = ''u'', Priority = 5\<rparr>" "- 30"]
    C8_price_amended [of "\<lparr>TeamID = ''A'', UserID = ''u'', Priority = 5\<rparr>" 60]
  by (simp add: spec_price_def index0_def costMap_def)

text \<open>
  C9. For every priority in 1..10 and every reputation \<open>r\<close> in 0..100, the price at
  reputation 100 is at most the price at \<open>r\<close>, which is at most the price at reputation 0;
  and the price does not increase when the reputation grows from \<open>r\<close> to any \<open>r'\<close> up to 100.
\<close>

theorem C9_price_antimonotone:
  assumes "1 \<le> Priority bid" and "Priority bid \<le> 10" and "0 \<le> r" and "r \<le> 100"
  shows "computeBidcost bid 100 \<le> computeBidcost bid r \<and>
         computeBidcost bid r \<le> computeBidcost bid 0 \<and>
         (\<forall>r'. r \<le> r' \<and> r' \<le> 100 \<longrightarrow> computeBidcost bid r' \<le> computeBidcost bid r)"
  using assms by (simp add: computeBidcost_antimono)

theorem C9_price_antimonotone_witness:
  "computeBidcost \<lparr>TeamID = ''A'', UserID = ''u'', Priority = 10\<rparr> 100
     \<le> computeBidcost \<lparr>TeamID = ''A'', UserID = ''u'', Priority = 10\<rparr> 80 \<and>
   computeBidcost \<lparr>TeamID = ''A'', UserID = ''u'', Priority = 10\<rparr> 80
     \<le> computeBidcost \<lparr>TeamID = ''A'', UserID = ''u'', Priority = 10\<rparr> 0 \<and>
   computeBidcost \<lparr>TeamID = ''A'', UserID = ''u'', Priority = 10\<rparr> 90
     \<le> computeBidcost \<lparr>TeamID = ''A'', UserID = ''u'', Priority = 10\<rparr> 80"
  using C9_price_antimonotone [of "\<lparr>TeamID = ''A'', UserID = ''u'', Priority = 10\<rparr>" 80]
  by simp


section \<open>The debit (C1)\<close>

lemmas store_defs =
  dynamo_call_def GetItem_def PutItem_if_absent_def PutItem_bid_def UpdateItem_spend_def
  UpdateItem_reputation_def UpdateItem_refill_def

lemmas op_defs =
  GetTokenBalance_def SpendTokens_def RecordBid_def RunAuction_def GetTokenPK_def GetBidPK_def
  InitialTokenCount_def InitialReputationScore_def InitialPriorityUsage_def in_int64_def

lemmas run_eval =
  store_defs op_defs NewManager_def bid_A_def computeBidcost_unfold calculateScore_unfold fl_eval
  index0_def costMap_def wrap64_def Let_def



lemma SpendTokens_sufficient:
  assumes "tokens tm (GetTokenPK (TeamID bid)) = Some row"
    and "computeBidcost bid (ReputationScore row) \<le> TokenBalance row"
    and "faults tm = []" and "in_int64 (TokenBalance row)" and "in_int64 (ReputationScore row)"
    and "PriorityUsage row = Some usage"
  shows "\<exists>row'. tokens (snd (SpendTokens bid tm)) (GetTokenPK (TeamID bid)) = Some row' \<and>
           TokenBalance row' = TokenBalance row - computeBidcost bid (ReputationScore row) \<and>
           PriorityUsage row' = Some (usage(Priority bid \<mapsto> index0 usage (Priority bid) + 1))"
  using assms
  by (simp add: SpendTokens_def GetTokenBalance_def GetItem_def dynamo_call_def Let_def
      UpdateItem_spend_def UpdateItem_reputation_def)






lemma index0_single: "index0 [k \<mapsto> c] j = (if j = k then c else 0)"
  by (simp add: index0_def)

lemma index0_update: "index0 (m(k \<mapsto> c)) j = (if j = k then c else index0 m j)"
  by (simp add: index0_def)

text \<open>
  What \<^verbatim>\<open>SpendTokens\<close> does to the reputation, as the code stands: the check
  \<^verbatim>\<open>priorityUsage[10] > 5\<close> reads the answer of the update, which holds the entry of the
  bid's own priority only.
\<close>

lemma SpendTokens_success:
  assumes "tokens tm (GetTokenPK (TeamID bid)) = Some row"
    and "fst (SpendTokens bid tm) = Inr newBalance"
  shows "\<exists>usage row'.
           PriorityUsage row = Some usage \<and>
           tokens (snd (SpendTokens bid tm)) (GetTokenPK (TeamID bid)) = Some row' \<and>
           newBalance = TokenBalance row - computeBidcost bid (ReputationScore row) \<and>
           TokenBalance row' = newBalance \<and>
           PriorityUsage row' = Some (usage(Priority bid \<mapsto> index0 usage (Priority bid) + 1)) \<and>
           ReputationScore row' =
             (if Priority bid = 10 \<and>
                 5 < index0 (usage(Priority bid \<mapsto> index0 usage (Priority bid) + 1)) 10
              then ReputationScore row - 10 else ReputationScore row) \<and>
           faults (snd (SpendTokens bid tm)) =
             drop (if Priority bid = 10 \<and>
                      5 < index0 (usage(Priority bid \<mapsto> index0 usage (Priority bid) + 1)) 10
                   then 3 else 2) (faults tm)"
  using assms
  by (auto simp: SpendTokens_def GetTokenBalance_def GetItem_def dynamo_call_def Let_def
      UpdateItem_spend_def UpdateItem_reputation_def drop_Suc numeral_3_eq_3 numeral_2_eq_2
      index0_single index0_update
      split: list.splits bool.splits option.splits if_splits)

lemma SpendTokens_reputation:
  assumes "tokens tm (GetTokenPK (TeamID bid)) = Some row"
  shows "\<exists>row'. tokens (snd (SpendTokens bid tm)) (GetTokenPK (TeamID bid)) = Some row' \<and>
           (ReputationScore row' = ReputationScore row \<or>
            ReputationScore row' = ReputationScore row - 10 \<and> Priority bid = 10 \<and>
            (\<exists>usage. PriorityUsage row = Some usage \<and>
               5 < index0 (usage(Priority bid \<mapsto> index0 usage (Priority bid) + 1)) 10 \<and>
               PriorityUsage row' = Some (usage(Priority bid \<mapsto> index0 usage (Priority bid) + 1))))"
  using assms
  by (auto simp: SpendTokens_def GetTokenBalance_def GetItem_def dynamo_call_def Let_def
      UpdateItem_spend_def UpdateItem_reputation_def index0_single index0_update
      split: list.splits bool.splits option.splits if_splits)

section \<open>The reputation bound and the penalty (C10, C7)\<close>

lemma InitializeTokens_accounts:
  "tokens (snd (InitializeTokens teams tm)) pk = Some row' \<Longrightarrow>
   tokens tm pk = Some row' \<or> (tokens tm pk = None \<and> ReputationScore row' = 100)"
proof (induction teams arbitrary: tm)
  case Nil
  then show ?case by simp
next
  case (Cons teamID teams)
  let ?item = "\<lparr>TokenBalance = InitialTokenCount, ReputationScore = InitialReputationScore,
                  PriorityUsage = Some InitialPriorityUsage\<rparr>"
  obtain e tm1 where put: "PutItem_if_absent (GetTokenPK teamID) ?item tm = (e, tm1)"
    by (cases "PutItem_if_absent (GetTokenPK teamID) ?item tm")
  then have tm1: "tokens tm1 = tokens tm \<or>
      (tokens tm (GetTokenPK teamID) = None \<and> tokens tm1 = (tokens tm)(GetTokenPK teamID \<mapsto> ?item))"
    by (auto simp: PutItem_if_absent_def dynamo_call_def split: list.splits bool.splits option.splits)
  show ?case
  proof (cases "e = None \<or> e = Some ConditionalCheckFailed")
    case True
    then have "InitializeTokens (teamID # teams) tm = InitializeTokens teams tm1"
      using put by (auto simp: Let_def)
    then have "tokens (snd (InitializeTokens teams tm1)) pk = Some row'"
      using Cons.prems by simp
    then have "tokens tm1 pk = Some row' \<or> (tokens tm1 pk = None \<and> ReputationScore row' = 100)"
      by (rule Cons.IH)
    then show ?thesis using tm1
      by (auto simp: InitialReputationScore_def split: if_splits)
  next
    case False
    then have "snd (InitializeTokens (teamID # teams) tm) = tm1"
      using put by (cases e) (auto simp: Let_def split: dynamo_error.splits)
    then show ?thesis using Cons.prems tm1
      by (auto simp: InitialReputationScore_def split: if_splits)
  qed
qed

lemma RefillTokens_accounts:
  "tokens (snd (RefillTokens teams tm)) pk = Some row' \<Longrightarrow>
   tokens tm pk = Some row' \<or> ReputationScore row' = 100"
proof (induction teams arbitrary: tm)
  case Nil
  then show ?case by simp
next
  case (Cons teamID teams)
  obtain e tm1 where upd: "UpdateItem_refill teamID InitialTokenCount InitialReputationScore tm = (e, tm1)"
    by (cases "UpdateItem_refill teamID InitialTokenCount InitialReputationScore tm")
  then have tm1: "tokens tm1 pk = Some r \<Longrightarrow> tokens tm pk = Some r \<or> ReputationScore r = 100" for r
    by (auto simp: UpdateItem_refill_def dynamo_call_def Let_def InitialReputationScore_def
        split: list.splits bool.splits option.splits if_splits)
  show ?case
  proof (cases e)
    case None
    then have "tokens (snd (RefillTokens teams tm1)) pk = Some row'"
      using Cons.prems upd by simp
    then have "tokens tm1 pk = Some row' \<or> ReputationScore row' = 100"
      by (rule Cons.IH)
    then show ?thesis using tm1 by blast
  next
    case (Some err)
    then have "snd (RefillTokens (teamID # teams) tm) = tm1"
      using upd by simp
    then show ?thesis using Cons.prems tm1 by simp
  qed
qed

lemma SpendTokens_accounts:
  "tokens (snd (SpendTokens bid tm)) pk = Some row' \<Longrightarrow>
   \<exists>row. tokens tm pk = Some row \<and>
     (ReputationScore row' = ReputationScore row \<or> ReputationScore row' = ReputationScore row - 10)"
  by (auto simp: SpendTokens_def GetTokenBalance_def GetItem_def dynamo_call_def Let_def
      UpdateItem_spend_def UpdateItem_reputation_def
      split: list.splits bool.splits option.splits if_splits prod.splits sum.splits)

lemma GetTokenBalance_tables:
  "GetTokenBalance teamID tm = (res, tm') \<Longrightarrow>
   tokens tm' = tokens tm \<and> bids tm' = bids tm \<and> logger tm' = logger tm"
  by (auto simp: GetTokenBalance_def GetItem_def dynamo_call_def
      split: list.splits bool.splits option.splits if_splits)

lemma RecordBid_tables:
  "RecordBid bid cost score tm = (res, tm') \<Longrightarrow>
   res = None \<and> tokens tm' = tokens tm \<and> logger tm' = logger tm"
  by (auto simp: RecordBid_def PutItem_bid_def dynamo_call_def Let_def
      split: list.splits bool.splits)

lemma auction_loop_tokens:
  "tokens (snd (auction_loop bidlist vars tm)) = tokens tm"
proof (induction bidlist arbitrary: vars tm)
  case Nil
  then show ?case by simp
next
  case (Cons bid rest)
  obtain w c m where vars: "vars = (w, c, m)" by (cases vars)
  obtain r tm1 where g: "GetTokenBalance (TeamID bid) tm = (r, tm1)"
    by (cases "GetTokenBalance (TeamID bid) tm")
  then have t1: "tokens tm1 = tokens tm" using GetTokenBalance_tables by blast
  show ?case
  proof (cases r)
    case (Inl e)
    then show ?thesis using g t1 vars by simp
  next
    case (Inr br)
    obtain balance reputation where br: "br = (balance, reputation)" by (cases br)
    obtain e tm2 where rb: "RecordBid bid (computeBidcost bid reputation)
        (calculateScore (Priority bid) reputation) tm1 = (e, tm2)"
      by (cases "RecordBid bid (computeBidcost bid reputation)
        (calculateScore (Priority bid) reputation) tm1")
    then have t2: "e = None" "tokens tm2 = tokens tm1" using RecordBid_tables by blast+
    show ?thesis
      using g Inr br rb t1 t2 vars Cons.IH by (simp add: Let_def)
  qed
qed

lemma RunAuction_accounts:
  assumes "tokens (snd (RunAuction bidlist tm)) pk = Some row'"
  shows "\<exists>row. tokens tm pk = Some row \<and>
     (ReputationScore row' = ReputationScore row \<or> ReputationScore row' = ReputationScore row - 10)"
proof -
  obtain r tm1 where l: "auction_loop bidlist (None, 0, 0) tm = (r, tm1)"
    by (cases "auction_loop bidlist (None, 0, 0) tm")
  then have t1: "tokens tm1 = tokens tm" using auction_loop_tokens [of bidlist "(None, 0, 0)" tm] by simp
  show ?thesis
  proof (cases r)
    case (Inl e)
    then show ?thesis using assms l t1 by (simp add: RunAuction_def)
  next
    case (Inr vars)
    obtain w c m where vars: "vars = (w, c, m)" by (cases vars)
    show ?thesis
    proof (cases w)
      case None
      then show ?thesis using assms l t1 Inr vars by (simp add: RunAuction_def)
    next
      case (Some winningBid)
      then have "tokens (snd (RunAuction bidlist tm)) = tokens (snd (SpendTokens winningBid tm1))"
        using l Inr vars by (simp add: RunAuction_def split: prod.splits sum.splits)
      then show ?thesis using assms SpendTokens_accounts [of winningBid tm1 pk row'] t1 by simp
    qed
  qed
qed

lemma reachable_reputation:
  "reachable tm \<Longrightarrow> tokens tm pk = Some row \<Longrightarrow> ReputationScore row \<le> 100"
proof (induction arbitrary: pk row rule: reachable.induct)
  case (start fs lg)
  then show ?case by simp
next
  case (environment tm fs lg)
  then show ?case by simp
next
  case (initialize tm teams)
  then show ?case using InitializeTokens_accounts [of teams tm pk row] by auto
next
  case (spend tm bid)
  then show ?case using SpendTokens_accounts [of bid tm pk row] by force
next
  case (auction tm bidlist)
  then show ?case using RunAuction_accounts [of bidlist tm pk row] by force
next
  case (refill tm teams)
  then show ?case using RefillTokens_accounts [of teams tm pk row] by auto
qed

lemma initialized_A: "snd (InitializeTokens [''A''] (NewManager [])) = account_A 1000 100 0 []"
  by (simp add: NewManager_def account_A_def store_defs op_defs Let_def)

lemma reachable_initialized_A: "reachable (account_A 1000 100 0 [])"
proof -
  have "reachable (NewManager [])"
    unfolding NewManager_def by (rule reachable.start)
  then have "reachable (snd (InitializeTokens [''A''] (NewManager [])))"
    by (rule reachable.initialize)
  then show ?thesis by (simp only: initialized_A)
qed

lemma SpendTokens_account_A:
  assumes "in_int64 b" and "in_int64 r" and "computeBidcost (bid_A 10) r = c" and "c \<le> b"
    and "in_int64 (b - c)"
  shows "snd (SpendTokens (bid_A 10) (account_A b r n [])) =
         account_A (b - c) (if 5 < n + 1 then r - 10 else r) (n + 1) []"
  using assms
  by (simp add: account_A_def bid_A_def SpendTokens_def GetTokenBalance_def GetTokenPK_def store_defs
      Let_def index0_def InitialPriorityUsage_def)

lemma price_at_priority_10:
  "computeBidcost (bid_A 10) 100 = 10" "computeBidcost (bid_A 10) 90 = 11"
  "computeBidcost (bid_A 10) 80 = 12" "computeBidcost (bid_A 10) 70 = 14"
  "computeBidcost (bid_A 10) 60 = 16" "computeBidcost (bid_A 10) 50 = 17"
  "computeBidcost (bid_A 10) 40 = 19" "computeBidcost (bid_A 10) 30 = 20"
  "computeBidcost (bid_A 10) 20 = 22" "computeBidcost (bid_A 10) 10 = 23"
  by (simp_all add: bid_A_def computeBidcost_unfold fl_eval index0_def costMap_def)

lemma reachable_spend_A:
  assumes "reachable (account_A b r n [])" and "computeBidcost (bid_A 10) r = c" and "c \<le> b"
    and "in_int64 b" and "in_int64 r" and "in_int64 (b - c)"
    and "b' = b - c" and "r' = (if 5 < n + 1 then r - 10 else r)" and "n' = n + 1"
  shows "reachable (account_A b' r' n' [])"
  using reachable.spend [OF assms(1), of "bid_A 10"] assms(2-)
  by (simp add: SpendTokens_account_A)

lemma reachable_A_after_six: "reachable (account_A 940 90 6 [])"
proof -
  note step = reachable_spend_A [where c = 10, OF _ price_at_priority_10(1)]
  have "reachable (account_A 990 100 1 [])"
    by (rule step [OF reachable_initialized_A]) (simp_all add: in_int64_def)
  then have "reachable (account_A 980 100 2 [])"
    by (rule step) (simp_all add: in_int64_def)
  then have "reachable (account_A 970 100 3 [])"
    by (rule step) (simp_all add: in_int64_def)
  then have "reachable (account_A 960 100 4 [])"
    by (rule step) (simp_all add: in_int64_def)
  then have "reachable (account_A 950 100 5 [])"
    by (rule step) (simp_all add: in_int64_def)
  then show "reachable (account_A 940 90 6 [])"
    by (rule step) (simp_all add: in_int64_def)
qed

lemma reachable_A_reputation_zero: "reachable (account_A 786 0 15 [])"
proof -
  note step = reachable_spend_A
  have "reachable (account_A 929 80 7 [])"
    by (rule step [OF reachable_A_after_six price_at_priority_10(2)]) (simp_all add: in_int64_def)
  then have "reachable (account_A 917 70 8 [])"
    by (rule step [OF _ price_at_priority_10(3)]) (simp_all add: in_int64_def)
  then have "reachable (account_A 903 60 9 [])"
    by (rule step [OF _ price_at_priority_10(4)]) (simp_all add: in_int64_def)
  then have "reachable (account_A 887 50 10 [])"
    by (rule step [OF _ price_at_priority_10(5)]) (simp_all add: in_int64_def)
  then have "reachable (account_A 870 40 11 [])"
    by (rule step [OF _ price_at_priority_10(6)]) (simp_all add: in_int64_def)
  then have "reachable (account_A 851 30 12 [])"
    by (rule step [OF _ price_at_priority_10(7)]) (simp_all add: in_int64_def)
  then have "reachable (account_A 831 20 13 [])"
    by (rule step [OF _ price_at_priority_10(8)]) (simp_all add: in_int64_def)
  then have "reachable (account_A 809 10 14 [])"
    by (rule step [OF _ price_at_priority_10(9)]) (simp_all add: in_int64_def)
  then show "reachable (account_A 786 0 15 [])"
    by (rule step [OF _ price_at_priority_10(10)]) (simp_all add: in_int64_def)
qed

text \<open>
  C10. In every state that the public operations reach from empty tables, every account
  has a reputation of at most 100. \<^verbatim>\<open>InitializeTokens\<close> leaves existing accounts alone and
  writes new ones with reputation 100; after \<^verbatim>\<open>RefillTokens\<close> an item is as before or has
  reputation 100; after \<^verbatim>\<open>SpendTokens\<close> or \<^verbatim>\<open>RunAuction\<close> every account existed before and
  has the reputation it had or 10 less.
\<close>

theorem C10_reputation_at_most_100:
  assumes "reachable tm"
  shows
    "(\<forall>pk row. tokens tm pk = Some row \<longrightarrow> ReputationScore row \<le> 100) \<and>
     (\<forall>teams pk row'. tokens (snd (InitializeTokens teams tm)) pk = Some row' \<longrightarrow>
        tokens tm pk = Some row' \<or> (tokens tm pk = None \<and> ReputationScore row' = 100)) \<and>
     (\<forall>teams pk row'. tokens (snd (RefillTokens teams tm)) pk = Some row' \<longrightarrow>
        tokens tm pk = Some row' \<or> ReputationScore row' = 100) \<and>
     (\<forall>bid pk row'. tokens (snd (SpendTokens bid tm)) pk = Some row' \<longrightarrow>
        (\<exists>row. tokens tm pk = Some row \<and>
           (ReputationScore row' = ReputationScore row \<or>
            ReputationScore row' = ReputationScore row - 10))) \<and>
     (\<forall>bidlist pk row'. tokens (snd (RunAuction bidlist tm)) pk = Some row' \<longrightarrow>
        (\<exists>row. tokens tm pk = Some row \<and>
           (ReputationScore row' = ReputationScore row \<or>
            ReputationScore row' = ReputationScore row - 10)))"
  using reachable_reputation [OF assms] InitializeTokens_accounts RefillTokens_accounts
    SpendTokens_accounts RunAuction_accounts
  by blast

theorem C10_reputation_at_most_100_witness:
  "reachable (account_A 940 90 6 []) \<and>
   (\<exists>row. tokens (account_A 940 90 6 []) ''team#A'' = Some row \<and> ReputationScore row = 90 \<and>
      ReputationScore row \<le> 100)"
  using C10_reputation_at_most_100 [OF reachable_A_after_six] reachable_A_after_six
  by (simp add: account_A_def)

text \<open>
  C7 (the code fails it). The claim says every successful debit, at any priority, lowers
  the reputation by 10 when the count of priority 10 after the update is above 5. The check
  \<^verbatim>\<open>priorityUsage[10] > 5\<close> stands under the comment \<^verbatim>\<open>Check priority 10 usage and update
  reputation if necessary\<close> and has no guard on the bid's priority, but it reads the answer
  of an update requested with \<^verbatim>\<open>UPDATED_NEW\<close>, which holds only the entry of the bid's own
  priority. Team \<^verbatim>\<open>A\<close> reaches balance 940, reputation 90 and a count of 6 at priority 10 by
  six debits at priority 10. Its next debit, at priority 3, succeeds and costs 1; the count
  of priority 10 is still 6, and the reputation stays at 90. From the same state a debit at
  priority 10 does lower the reputation, to 80.
\<close>

theorem C7_penalty_missed_at_other_priority:
  "reachable (account_A 940 90 6 []) \<and>
   fst (SpendTokens (bid_A 3) (account_A 940 90 6 [])) = Inr 939 \<and>
   map_option (\<lambda>row. (TokenBalance row, ReputationScore row,
                        map_option (\<lambda>usage. index0 usage 10) (PriorityUsage row)))
     (tokens (snd (SpendTokens (bid_A 3) (account_A 940 90 6 []))) ''team#A'') =
     Some (939, 90, Some 6) \<and>
   fst (SpendTokens (bid_A 10) (account_A 940 90 6 [])) = Inr 929 \<and>
   map_option (\<lambda>row. (TokenBalance row, ReputationScore row,
                        map_option (\<lambda>usage. index0 usage 10) (PriorityUsage row)))
     (tokens (snd (SpendTokens (bid_A 10) (account_A 940 90 6 []))) ''team#A'') =
     Some (929, 80, Some 7)"
  using reachable_A_after_six
  by (simp add: account_A_def run_eval)

section \<open>Auction rounds and refill (C2, C3, C4, C5, C6)\<close>

lemma costMap_outside: "p < 1 \<or> 10 < p \<Longrightarrow> index0 costMap p = 0"
  by (auto simp: index0_def costMap_def)

lemma computeBidcost_outside:
  "Priority bid < 1 \<or> 10 < Priority bid \<Longrightarrow> computeBidcost bid reputation = 0"
  by (simp add: computeBidcost_unfold costMap_outside fl_zero trunc_def)

lemma SpendTokens_bids: "bids (snd (SpendTokens bid tm)) = bids tm"
  by (auto simp: SpendTokens_def GetTokenBalance_def GetItem_def dynamo_call_def Let_def
      UpdateItem_spend_def UpdateItem_reputation_def
      split: list.splits bool.splits option.splits if_splits prod.splits sum.splits)

lemma RunAuction_bids:
  "bids (snd (RunAuction bidlist tm)) = bids (snd (auction_loop bidlist (None, 0, 0) tm))"
proof -
  obtain r tm1 where l: "auction_loop bidlist (None, 0, 0) tm = (r, tm1)"
    by (cases "auction_loop bidlist (None, 0, 0) tm")
  show ?thesis
  proof (cases r)
    case (Inl e)
    then show ?thesis using l by (simp add: RunAuction_def)
  next
    case (Inr vars)
    obtain w c m where vars: "vars = (w, c, m)" by (cases vars)
    show ?thesis
    proof (cases w)
      case None
      then show ?thesis using l Inr vars by (simp add: RunAuction_def)
    next
      case (Some winningBid)
      then have "bids (snd (RunAuction bidlist tm)) = bids (snd (SpendTokens winningBid tm1))"
        using l Inr vars by (simp add: RunAuction_def split: prod.splits sum.splits)
      then show ?thesis using l by (simp add: SpendTokens_bids)
    qed
  qed
qed

lemma RunAuction_single_records:
  assumes "tokens tm (GetTokenPK (TeamID bid)) = Some row"
    and "in_int64 (TokenBalance row)" and "in_int64 (ReputationScore row)" and "faults tm = []"
  shows "bids (snd (RunAuction [bid] tm)) =
         bids tm @ [\<lparr>RowPk = GetBidPK (TeamID bid), RowTarget = UserID bid,
                     RowPriority = Priority bid,
                     RowCost = computeBidcost bid (ReputationScore row),
                     RowScore = calculateScore (Priority bid) (ReputationScore row)\<rparr>]"
proof -
  let ?br = "\<lparr>RowPk = GetBidPK (TeamID bid), RowTarget = UserID bid,
                     RowPriority = Priority bid,
                     RowCost = computeBidcost bid (ReputationScore row),
                     RowScore = calculateScore (Priority bid) (ReputationScore row)\<rparr>"
  have g: "GetTokenBalance (TeamID bid) tm = (Inr (TokenBalance row, ReputationScore row), tm)"
    using assms by (simp add: GetTokenBalance_def GetItem_def dynamo_call_def)
  have r: "RecordBid bid (computeBidcost bid (ReputationScore row))
      (calculateScore (Priority bid) (ReputationScore row)) tm = (None, tm\<lparr>bids := bids tm @ [?br]\<rparr>)"
    using assms by (simp add: RecordBid_def PutItem_bid_def dynamo_call_def Let_def)
  have "bids (snd (auction_loop [bid] (None, 0, 0) tm)) = bids tm @ [?br]"
    by (simp add: g r Let_def)
  then show ?thesis by (simp only: RunAuction_bids)
qed

lemma RunAuction_single_wins:
  assumes "tokens tm (GetTokenPK (TeamID bid)) = Some row"
    and "in_int64 (TokenBalance row)" and "in_int64 (ReputationScore row)" and "faults tm = []"
    and "computeBidcost bid (ReputationScore row) \<le> TokenBalance row"
    and "0 < calculateScore (Priority bid) (ReputationScore row)"
    and "PriorityUsage row = Some usage"
    and "in_int64 (TokenBalance row - computeBidcost bid (ReputationScore row))"
  shows "fst (RunAuction [bid] tm) = Inr (TeamID bid) \<and>
         (\<exists>row'. tokens (snd (RunAuction [bid] tm)) (GetTokenPK (TeamID bid)) = Some row' \<and>
            TokenBalance row' = TokenBalance row - computeBidcost bid (ReputationScore row) \<and>
            PriorityUsage row' = Some (usage(Priority bid \<mapsto> index0 usage (Priority bid) + 1)))"
proof -
  let ?br = "\<lparr>RowPk = GetBidPK (TeamID bid), RowTarget = UserID bid,
                     RowPriority = Priority bid,
                     RowCost = computeBidcost bid (ReputationScore row),
                     RowScore = calculateScore (Priority bid) (ReputationScore row)\<rparr>"
  let ?tm1 = "tm\<lparr>bids := bids tm @ [?br]\<rparr>"
  have g: "GetTokenBalance (TeamID bid) tm = (Inr (TokenBalance row, ReputationScore row), tm)"
    using assms by (simp add: GetTokenBalance_def GetItem_def dynamo_call_def)
  have r: "RecordBid bid (computeBidcost bid (ReputationScore row))
      (calculateScore (Priority bid) (ReputationScore row)) tm = (None, ?tm1)"
    using assms by (simp add: RecordBid_def PutItem_bid_def dynamo_call_def Let_def)
  have l: "auction_loop [bid] (None, 0, 0) tm =
      (Inr (Some bid, computeBidcost bid (ReputationScore row),
            calculateScore (Priority bid) (ReputationScore row)), ?tm1)"
    using assms(5,6) by (simp add: g r Let_def)
  have s: "fst (SpendTokens bid ?tm1) = Inr (TokenBalance row - computeBidcost bid (ReputationScore row))"
    using assms
    by (simp add: SpendTokens_def GetTokenBalance_def GetItem_def dynamo_call_def Let_def
        UpdateItem_spend_def UpdateItem_reputation_def)
  have t: "\<exists>row'. tokens (snd (SpendTokens bid ?tm1)) (GetTokenPK (TeamID bid)) = Some row' \<and>
            TokenBalance row' = TokenBalance row - computeBidcost bid (ReputationScore row) \<and>
            PriorityUsage row' = Some (usage(Priority bid \<mapsto> index0 usage (Priority bid) + 1))"
    using assms by (intro SpendTokens_sufficient) simp_all
  have "RunAuction [bid] tm =
      (case SpendTokens bid ?tm1 of
         (Inl err, tm2) \<Rightarrow> (Inl err, tm2)
       | (Inr _, tm2) \<Rightarrow> (Inr (TeamID bid), tm2))"
    unfolding RunAuction_def l by simp
  then show ?thesis
    using s t by (cases "SpendTokens bid ?tm1") (auto split: sum.splits)
qed

text \<open>
  C5 (as stated, fails). The claim says a bid with a priority outside 1..10 fails with an
  invalid-priority error before any store access, with no cost computed and no bid record
  written. A round with the single bid of team \<^verbatim>\<open>A\<close> at priority 11 returns \<^verbatim>\<open>A\<close> as the
  winner, after writing a bid record with cost 0.
\<close>

theorem C5_priority_counterexample:
  "fst (RunAuction [bid_A 11] (account_A 1000 100 0 [])) = Inr ''A'' \<and>
   map (\<lambda>br. (RowPk br, RowPriority br, RowCost br))
     (bids (snd (RunAuction [bid_A 11] (account_A 1000 100 0 [])))) = [(''bid#A'', 11, 0)]"
  by (simp add: account_A_def run_eval)

text \<open>
  C5 (amended). No operation rejects a priority outside 1..10. For such a bid the base
  cost read from \<^verbatim>\<open>costMap\<close> is 0, so its price is 0 at every reputation. A round with
  that single bid, on an existing account and an answering service, reads the account and
  writes the bid record, with cost 0; and when the balance is not negative and the score is
  positive the bid wins: the balance stays as it was and the usage count of that priority
  goes up by 1.
\<close>

theorem C5_priority_amended:
  assumes "Priority bid < 1 \<or> 10 < Priority bid"
  shows
    "computeBidcost bid reputation = 0 \<and>
     (tokens tm (GetTokenPK (TeamID bid)) = Some row \<and> in_int64 (TokenBalance row) \<and>
      in_int64 (ReputationScore row) \<and> faults tm = [] \<longrightarrow>
        bids (snd (RunAuction [bid] tm)) =
          bids tm @ [\<lparr>RowPk = GetBidPK (TeamID bid), RowTarget = UserID bid,
                      RowPriority = Priority bid, RowCost = 0,
                      RowScore = calculateScore (Priority bid) (ReputationScore row)\<rparr>]) \<and>
     (tokens tm (GetTokenPK (TeamID bid)) = Some row \<and> in_int64 (TokenBalance row) \<and>
      in_int64 (ReputationScore row) \<and> faults tm = [] \<and> 0 \<le> TokenBalance row \<and>
      0 < calculateScore (Priority bid) (ReputationScore row) \<and> PriorityUsage row = Some usage \<longrightarrow>
        fst (RunAuction [bid] tm) = Inr (TeamID bid) \<and>
        (\<exists>row'. tokens (snd (RunAuction [bid] tm)) (GetTokenPK (TeamID bid)) = Some row' \<and>
           TokenBalance row' = TokenBalance row \<and>
           PriorityUsage row' = Some (usage(Priority bid \<mapsto> index0 usage (Priority bid) + 1))))"
proof (intro conjI impI)
  show zero: "computeBidcost bid r = 0" for r
    using assms by (rule computeBidcost_outside)
  show "bids (snd (RunAuction [bid] tm)) =
          bids tm @ [\<lparr>RowPk = GetBidPK (TeamID bid), RowTarget = UserID bid,
                      RowPriority = Priority bid, RowCost = 0,
                      RowScore = calculateScore (Priority bid) (ReputationScore row)\<rparr>]"
    if "tokens tm (GetTokenPK (TeamID bid)) = Some row \<and> in_int64 (TokenBalance row) \<and>
      in_int64 (ReputationScore row) \<and> faults tm = []"
    using RunAuction_single_records [of tm bid row] that by (simp add: zero)
  assume h: "tokens tm (GetTokenPK (TeamID bid)) = Some row \<and> in_int64 (TokenBalance row) \<and>
      in_int64 (ReputationScore row) \<and> faults tm = [] \<and> 0 \<le> TokenBalance row \<and>
      0 < calculateScore (Priority bid) (ReputationScore row) \<and> PriorityUsage row = Some usage"
  then have w: "fst (RunAuction [bid] tm) = Inr (TeamID bid) \<and>
         (\<exists>row'. tokens (snd (RunAuction [bid] tm)) (GetTokenPK (TeamID bid)) = Some row' \<and>
            TokenBalance row' = TokenBalance row - computeBidcost bid (ReputationScore row) \<and>
            PriorityUsage row' = Some (usage(Priority bid \<mapsto> index0 usage (Priority bid) + 1)))"
    by (intro RunAuction_single_wins) (simp_all add: zero)
  from w show "fst (RunAuction [bid] tm) = Inr (TeamID bid)" by simp
  from w show "\<exists>row'. tokens (snd (RunAuction [bid] tm)) (GetTokenPK (TeamID bid)) = Some row' \<and>
           TokenBalance row' = TokenBalance row \<and>
           PriorityUsage row' = Some (usage(Priority bid \<mapsto> index0 usage (Priority bid) + 1))"
    by (simp add: zero)
qed

theorem C5_priority_amended_witness:
  "computeBidcost (bid_A 11) 100 = 0 \<and>
   map RowCost (bids (snd (RunAuction [bid_A 11] (account_A 1000 100 0 [])))) = [0] \<and>
   fst (RunAuction [bid_A 11] (account_A 1000 100 0 [])) = Inr ''A'' \<and>
   (\<exists>row'. tokens (snd (RunAuction [bid_A 11] (account_A 1000 100 0 []))) ''team#A'' = Some row' \<and>
      TokenBalance row' = 1000 \<and>
      PriorityUsage row' = Some (InitialPriorityUsage(10 \<mapsto> 0, 11 \<mapsto> 1)))"
proof -
  have score: "0 < calculateScore 11 100"
    by (simp add: calculateScore_unfold fl_eval wrap64_def)
  have pk: "GetTokenPK (TeamID (bid_A 11)) = ''team#A''"
    by (simp add: bid_A_def GetTokenPK_def)
  have p: "Priority (bid_A 11) = 11" "TeamID (bid_A 11) = ''A''" by (simp_all add: bid_A_def)
  have u: "index0 (InitialPriorityUsage(10 \<mapsto> 0)) 11 = 0"
    by (simp add: index0_def InitialPriorityUsage_def)
  show ?thesis
    using C5_priority_amended [where bid = "bid_A 11" and tm = "account_A 1000 100 0 []"
        and row = "\<lparr>TokenBalance = 1000, ReputationScore = 100,
                     PriorityUsage = Some (InitialPriorityUsage(10 \<mapsto> 0))\<rparr>"
        and usage = "InitialPriorityUsage(10 \<mapsto> 0)" and reputation = 100]
    by (simp add: pk p u score account_A_def in_int64_def GetTokenPK_def)
qed

lemma initialized_AB:
  "snd (InitializeTokens [''A'', ''B''] (NewManager [])) = accounts_AB (1000, 100, 0) (1000, 100, 0)"
  by (simp add: NewManager_def accounts_AB_def account_row_def store_defs op_defs Let_def)

lemma reachable_initialized_AB: "reachable (accounts_AB (1000, 100, 0) (1000, 100, 0))"
proof -
  have "reachable (NewManager [])"
    unfolding NewManager_def by (rule reachable.start)
  then have "reachable (snd (InitializeTokens [''A'', ''B''] (NewManager [])))"
    by (rule reachable.initialize)
  then show ?thesis by (simp only: initialized_AB)
qed

lemma price_at_priority_10_B:
  "computeBidcost (bid_B 10) r = computeBidcost (bid_A 10) r"
  by (simp add: computeBidcost_unfold bid_A_def bid_B_def)

lemma reachable_spend_AB_A:
  assumes "reachable (accounts_AB (b, r, n) other)" and "computeBidcost (bid_A 10) r = c" and "c \<le> b"
    and "in_int64 b" and "in_int64 r" and "in_int64 (b - c)"
    and "b' = b - c" and "r' = (if 5 < n + 1 then r - 10 else r)" and "n' = n + 1"
  shows "reachable (accounts_AB (b', r', n') other)"
proof -
  have "snd (SpendTokens (bid_A 10) (accounts_AB (b, r, n) other)) = accounts_AB (b', r', n') other"
    using assms(2-)
    by (simp add: accounts_AB_def account_row_def bid_A_def SpendTokens_def GetTokenBalance_def
        GetTokenPK_def store_defs Let_def index0_def InitialPriorityUsage_def fun_upd_twist)
  then show ?thesis using reachable.spend [OF assms(1), of "bid_A 10"] by simp
qed

lemma reachable_spend_AB_B:
  assumes "reachable (accounts_AB other (b, r, n))" and "computeBidcost (bid_A 10) r = c" and "c \<le> b"
    and "in_int64 b" and "in_int64 r" and "in_int64 (b - c)"
    and "b' = b - c" and "r' = (if 5 < n + 1 then r - 10 else r)" and "n' = n + 1"
  shows "reachable (accounts_AB other (b', r', n'))"
proof -
  have "snd (SpendTokens (bid_B 10) (accounts_AB other (b, r, n))) = accounts_AB other (b', r', n')"
    using assms(2-)
    by (simp add: accounts_AB_def account_row_def bid_B_def SpendTokens_def GetTokenBalance_def
        GetTokenPK_def store_defs Let_def index0_def InitialPriorityUsage_def
        price_at_priority_10_B [unfolded bid_B_def])
  then show ?thesis using reachable.spend [OF assms(1), of "bid_B 10"] by simp
qed

lemma reachable_AB_reputation_zero: "reachable (accounts_AB (786, 0, 15) (786, 0, 15))"
proof -
  have "reachable (accounts_AB (990, 100, 1) (1000, 100, 0))"
    by (rule reachable_spend_AB_A [OF reachable_initialized_AB price_at_priority_10(1)])
      (simp_all add: in_int64_def)
  then have "reachable (accounts_AB (980, 100, 2) (1000, 100, 0))"
    by (rule reachable_spend_AB_A [OF _ price_at_priority_10(1)]) (simp_all add: in_int64_def)
  then have "reachable (accounts_AB (970, 100, 3) (1000, 100, 0))"
    by (rule reachable_spend_AB_A [OF _ price_at_priority_10(1)]) (simp_all add: in_int64_def)
  then have "reachable (accounts_AB (960, 100, 4) (1000, 100, 0))"
    by (rule reachable_spend_AB_A [OF _ price_at_priority_10(1)]) (simp_all add: in_int64_def)
  then have "reachable (accounts_AB (950, 100, 5) (1000, 100, 0))"
    by (rule reachable_spend_AB_A [OF _ price_at_priority_10(1)]) (simp_all add: in_int64_def)
  then have "reachable (accounts_AB (940, 90, 6) (1000, 100, 0))"
    by (rule reachable_spend_AB_A [OF _ price_at_priority_10(1)]) (simp_all add: in_int64_def)
  then have "reachable (accounts_AB (929, 80, 7) (1000, 100, 0))"
    by (rule reachable_spend_AB_A [OF _ price_at_priority_10(2)]) (simp_all add: in_int64_def)
  then have "reachable (accounts_AB (917, 70, 8) (1000, 100, 0))"
    by (rule reachable_spend_AB_A [OF _ price_at_priority_10(3)]) (simp_all add: in_int64_def)
  then have "reachable (accounts_AB (903, 60, 9) (1000, 100, 0))"
    by (rule reachable_spend_AB_A [OF _ price_at_priority_10(4)]) (simp_all add: in_int64_def)
  then have "reachable (accounts_AB (887, 50, 10) (1000, 100, 0))"
    by (rule reachable_spend_AB_A [OF _ price_at_priority_10(5)]) (simp_all add: in_int64_def)
  then have "reachable (accounts_AB (870, 40, 11) (1000, 100, 0))"
    by (rule reachable_spend_AB_A [OF _ price_at_priority_10(6)]) (simp_all add: in_int64_def)
  then have "reachable (accounts_AB (851, 30, 12) (1000, 100, 0))"
    by (rule reachable_spend_AB_A [OF _ price_at_priority_10(7)]) (simp_all add: in_int64_def)
  then have "reachable (accounts_AB (831, 20, 13) (1000, 100, 0))"
    by (rule reachable_spend_AB_A [OF _ price_at_priority_10(8)]) (simp_all add: in_int64_def)
  then have "reachable (accounts_AB (809, 10, 14) (1000, 100, 0))"
    by (rule reachable_spend_AB_A [OF _ price_at_priority_10(9)]) (simp_all add: in_int64_def)
  then have "reachable (accounts_AB (786, 0, 15) (1000, 100, 0))"
    by (rule reachable_spend_AB_A [OF _ price_at_priority_10(10)]) (simp_all add: in_int64_def)
  then have "reachable (accounts_AB (786, 0, 15) (990, 100, 1))"
    by (rule reachable_spend_AB_B [OF _ price_at_priority_10(1)]) (simp_all add: in_int64_def)
  then have "reachable (accounts_AB (786, 0, 15) (980, 100, 2))"
    by (rule reachable_spend_AB_B [OF _ price_at_priority_10(1)]) (simp_all add: in_int64_def)
  then have "reachable (accounts_AB (786, 0, 15) (970, 100, 3))"
    by (rule reachable_spend_AB_B [OF _ price_at_priority_10(1)]) (simp_all add: in_int64_def)
  then have "reachable (accounts_AB (786, 0, 15) (960, 100, 4))"
    by (rule reachable_spend_AB_B [OF _ price_at_priority_10(1)]) (simp_all add: in_int64_def)
  then have "reachable (accounts_AB (786, 0, 15) (950, 100, 5))"
    by (rule reachable_spend_AB_B [OF _ price_at_priority_10(1)]) (simp_all add: in_int64_def)
  then have "reachable (accounts_AB (786, 0, 15) (940, 90, 6))"
    by (rule reachable_spend_AB_B [OF _ price_at_priority_10(1)]) (simp_all add: in_int64_def)
  then have "reachable (accounts_AB (786, 0, 15) (929, 80, 7))"
    by (rule reachable_spend_AB_B [OF _ price_at_priority_10(2)]) (simp_all add: in_int64_def)
  then have "reachable (accounts_AB (786, 0, 15) (917, 70, 8))"
    by (rule reachable_spend_AB_B [OF _ price_at_priority_10(3)]) (simp_all add: in_int64_def)
  then have "reachable (accounts_AB (786, 0, 15) (903, 60, 9))"
    by (rule reachable_spend_AB_B [OF _ price_at_priority_10(4)]) (simp_all add: in_int64_def)
  then have "reachable (accounts_AB (786, 0, 15) (887, 50, 10))"
    by (rule reachable_spend_AB_B [OF _ price_at_priority_10(5)]) (simp_all add: in_int64_def)
  then have "reachable (accounts_AB (786, 0, 15) (870, 40, 11))"
    by (rule reachable_spend_AB_B [OF _ price_at_priority_10(6)]) (simp_all add: in_int64_def)
  then have "reachable (accounts_AB (786, 0, 15) (851, 30, 12))"
    by (rule reachable_spend_AB_B [OF _ price_at_priority_10(7)]) (simp_all add: in_int64_def)
  then have "reachable (accounts_AB (786, 0, 15) (831, 20, 13))"
    by (rule reachable_spend_AB_B [OF _ price_at_priority_10(8)]) (simp_all add: in_int64_def)
  then have "reachable (accounts_AB (786, 0, 15) (809, 10, 14))"
    by (rule reachable_spend_AB_B [OF _ price_at_priority_10(9)]) (simp_all add: in_int64_def)
  then show "reachable (accounts_AB (786, 0, 15) (786, 0, 15))"
    by (rule reachable_spend_AB_B [OF _ price_at_priority_10(10)]) (simp_all add: in_int64_def)
qed

lemma auction_loop_step_eligible:
  assumes "tokens tm (GetTokenPK (TeamID bid)) = Some row"
    and "in_int64 (TokenBalance row)" and "in_int64 (ReputationScore row)" and "faults tm = []"
    and "computeBidcost bid (ReputationScore row) \<le> TokenBalance row"
  shows "auction_loop (bid # rest) (winningBid, winningBidCost, maxScore) tm =
         auction_loop rest
           (if maxScore < calculateScore (Priority bid) (ReputationScore row)
            then (Some bid, computeBidcost bid (ReputationScore row),
                  calculateScore (Priority bid) (ReputationScore row))
            else (winningBid, winningBidCost, maxScore))
           (tm\<lparr>bids := bids tm @
              [\<lparr>RowPk = GetBidPK (TeamID bid), RowTarget = UserID bid, RowPriority = Priority bid,
                RowCost = computeBidcost bid (ReputationScore row),
                RowScore = calculateScore (Priority bid) (ReputationScore row)\<rparr>]\<rparr>)"
proof -
  have g: "GetTokenBalance (TeamID bid) tm = (Inr (TokenBalance row, ReputationScore row), tm)"
    using assms by (simp add: GetTokenBalance_def GetItem_def dynamo_call_def)
  have r: "RecordBid bid (computeBidcost bid (ReputationScore row))
      (calculateScore (Priority bid) (ReputationScore row)) tm =
      (None, tm\<lparr>bids := bids tm @
              [\<lparr>RowPk = GetBidPK (TeamID bid), RowTarget = UserID bid, RowPriority = Priority bid,
                RowCost = computeBidcost bid (ReputationScore row),
                RowScore = calculateScore (Priority bid) (ReputationScore row)\<rparr>]\<rparr>)"
    using assms by (simp add: RecordBid_def PutItem_bid_def dynamo_call_def Let_def)
  show ?thesis using assms(5) by (simp add: g r Let_def)
qed

text \<open>
  Where the tie-break works: of two eligible bids whose scores are above 0, the second wins
  only with a strictly greater score; with equal scores the first wins.
\<close>

lemma RunAuction_two_eligible_bids:
  assumes "tokens tm (GetTokenPK (TeamID bid1)) = Some row1"
    and "tokens tm (GetTokenPK (TeamID bid2)) = Some row2"
    and "in_int64 (TokenBalance row1)" and "in_int64 (ReputationScore row1)"
    and "in_int64 (TokenBalance row2)" and "in_int64 (ReputationScore row2)"
    and "faults tm = []"
    and "computeBidcost bid1 (ReputationScore row1) \<le> TokenBalance row1"
    and "computeBidcost bid2 (ReputationScore row2) \<le> TokenBalance row2"
    and "PriorityUsage row1 = Some usage1"
    and "in_int64 (TokenBalance row1 - computeBidcost bid1 (ReputationScore row1))"
    and "0 < calculateScore (Priority bid1) (ReputationScore row1)"
    and "calculateScore (Priority bid2) (ReputationScore row2)
         \<le> calculateScore (Priority bid1) (ReputationScore row1)"
  shows "fst (RunAuction [bid1, bid2] tm) = Inr (TeamID bid1)"
proof -
  let ?br1 = "\<lparr>RowPk = GetBidPK (TeamID bid1), RowTarget = UserID bid1, RowPriority = Priority bid1,
                RowCost = computeBidcost bid1 (ReputationScore row1),
                RowScore = calculateScore (Priority bid1) (ReputationScore row1)\<rparr>"
  let ?br2 = "\<lparr>RowPk = GetBidPK (TeamID bid2), RowTarget = UserID bid2, RowPriority = Priority bid2,
                RowCost = computeBidcost bid2 (ReputationScore row2),
                RowScore = calculateScore (Priority bid2) (ReputationScore row2)\<rparr>"
  let ?tm1 = "tm\<lparr>bids := bids tm @ [?br1]\<rparr>"
  let ?tm2 = "?tm1\<lparr>bids := bids ?tm1 @ [?br2]\<rparr>"
  have s1: "auction_loop [bid1, bid2] (None, 0, 0) tm =
      auction_loop [bid2] (Some bid1, computeBidcost bid1 (ReputationScore row1),
        calculateScore (Priority bid1) (ReputationScore row1)) ?tm1"
    using assms by (simp only: auction_loop_step_eligible [OF assms(1,3,4,7,8)] if_True)
  have s2: "auction_loop [bid2] (Some bid1, computeBidcost bid1 (ReputationScore row1),
        calculateScore (Priority bid1) (ReputationScore row1)) ?tm1 =
      (Inr (Some bid1, computeBidcost bid1 (ReputationScore row1),
        calculateScore (Priority bid1) (ReputationScore row1)), ?tm2)"
  proof -
    have t: "tokens ?tm1 (GetTokenPK (TeamID bid2)) = Some row2" and f: "faults ?tm1 = []"
      using assms by simp_all
    have n: "\<not> calculateScore (Priority bid1) (ReputationScore row1)
        < calculateScore (Priority bid2) (ReputationScore row2)"
      using assms(13) by simp
    show ?thesis
      unfolding auction_loop_step_eligible [OF t assms(5,6) f assms(9)]
      by (simp add: n)
  qed
  have sp: "fst (SpendTokens bid1 ?tm2) =
      Inr (TokenBalance row1 - computeBidcost bid1 (ReputationScore row1))"
    using assms
    by (simp add: SpendTokens_def GetTokenBalance_def GetItem_def dynamo_call_def Let_def
        UpdateItem_spend_def UpdateItem_reputation_def)
  have "RunAuction [bid1, bid2] tm =
      (case SpendTokens bid1 ?tm2 of
         (Inl err, tm3) \<Rightarrow> (Inl err, tm3)
       | (Inr _, tm3) \<Rightarrow> (Inr (TeamID bid1), tm3))"
    unfolding RunAuction_def s1 s2 by simp
  then show ?thesis
    using sp by (cases "SpendTokens bid1 ?tm2") (auto split: sum.splits)
qed

lemma RefillTokens_own_account:
  "tokens (snd (RefillTokens [teamID] tm)) (GetTokenPK teamID) = tokens tm (GetTokenPK teamID)"
  by (auto simp: UpdateItem_refill_def dynamo_call_def GetTokenPK_def Let_def
      split: list.splits bool.splits option.splits)

text \<open>
  C2 (the code fails it). The claim says \<^verbatim>\<open>RefillTokens\<close> on a team resets that team's
  balance to 1000 and reputation to 100. \<^verbatim>\<open>RefillTokens\<close> addresses the item whose key is the
  bare team identifier, not \<^verbatim>\<open>GetTokenPK(teamID)\<close> as every other operation does. On the
  reachable state where team \<^verbatim>\<open>A\<close> has balance 940 and reputation 90, refilling \<^verbatim>\<open>A\<close>
  succeeds, leaves the account of \<^verbatim>\<open>A\<close> at balance 940 and reputation 90, and creates an
  item under the key \<^verbatim>\<open>A\<close>. A single-team refill never changes that team's account.
\<close>

theorem C2_refill_misses_the_account:
  "reachable (account_A 940 90 6 []) \<and>
   fst (RefillTokens [''A''] (account_A 940 90 6 [])) = None \<and>
   map_option (\<lambda>row. (TokenBalance row, ReputationScore row))
     (tokens (snd (RefillTokens [''A''] (account_A 940 90 6 []))) (GetTokenPK ''A'')) = Some (940, 90) \<and>
   tokens (snd (RefillTokens [''A''] (account_A 940 90 6 []))) ''A'' =
     Some \<lparr>TokenBalance = 1000, ReputationScore = 100, PriorityUsage = None\<rparr> \<and>
   (\<forall>teamID tm. tokens (snd (RefillTokens [teamID] tm)) (GetTokenPK teamID) = tokens tm (GetTokenPK teamID))"
  using reachable_A_after_six RefillTokens_own_account
  by (simp add: account_A_def store_defs op_defs Let_def)

lemma RecordBid_returns_nil: "fst (RecordBid bid cost score tm) = None"
  by (simp add: RecordBid_def Let_def split: prod.splits)

text \<open>
  C3 (the code fails it). The claim says a failed audit write aborts the round.
  \<^verbatim>\<open>RecordBid\<close> assigns the error of \<^verbatim>\<open>PutItem\<close> and returns \<^verbatim>\<open>nil\<close>, so the check in
  \<^verbatim>\<open>RunAuction\<close> never fires. With the second client call (the audit write) failing, the
  round of the single bid of team \<^verbatim>\<open>A\<close> at priority 5 returns \<^verbatim>\<open>A\<close> and debits 5 tokens,
  and the \<^verbatim>\<open>bids\<close> table stays empty.
\<close>

theorem C3_failed_record_does_not_abort:
  "fst (PutItem_bid \<lparr>RowPk = ''bid#A'', RowTarget = ''123'', RowPriority = 5, RowCost = 5,
         RowScore = calculateScore 5 100\<rparr> (account_A 1000 100 0 [True])) = Some ServiceError \<and>
   fst (RunAuction [bid_A 5] (account_A 1000 100 0 [False, True])) = Inr ''A'' \<and>
   bids (snd (RunAuction [bid_A 5] (account_A 1000 100 0 [False, True]))) = [] \<and>
   map_option TokenBalance
     (tokens (snd (RunAuction [bid_A 5] (account_A 1000 100 0 [False, True]))) ''team#A'') = Some 995 \<and>
   (\<forall>bid cost score tm. fst (RecordBid bid cost score tm) = None)"
  using RecordBid_returns_nil
  by (simp add: account_A_def run_eval)

text \<open>
  C4 (the code fails it). The claim says a round with a single affordable bid returns that
  bid's team at every priority and every reachable reputation. \<^verbatim>\<open>maxScore\<close> starts at 0 and
  a bid wins only with a score above it. Team \<^verbatim>\<open>A\<close> reaches reputation 0 (with balance 786)
  by fifteen debits at priority 10; its bid at priority 1 then costs 2, which it can afford,
  and scores 0, and the round of that single bid ends without a winner.
\<close>

theorem C4_single_affordable_bid_loses:
  "reachable (account_A 786 0 15 []) \<and>
   computeBidcost (bid_A 1) 0 = 2 \<and>
   calculateScore 1 0 = 0 \<and>
   fst (RunAuction [bid_A 1] (account_A 786 0 15 [])) = Inl NoWinner"
  using reachable_A_reputation_zero
  by (simp add: account_A_def run_eval)

text \<open>
  C6 (the code fails it). The claim says that of two eligible bids with equal scores the
  first one wins. Teams \<^verbatim>\<open>A\<close> and \<^verbatim>\<open>B\<close> both reach reputation 0 and balance 786; their bids
  at priority 1 are both affordable (cost 2) and have the same score, 0; the round ends
  without a winner instead of returning \<^verbatim>\<open>A\<close>.
\<close>

theorem C6_equal_scores_no_winner:
  "reachable (accounts_AB (786, 0, 15) (786, 0, 15)) \<and>
   computeBidcost (bid_A 1) 0 = 2 \<and> computeBidcost (bid_B 1) 0 = 2 \<and>
   calculateScore (Priority (bid_A 1)) 0 = calculateScore (Priority (bid_B 1)) 0 \<and>
   fst (RunAuction [bid_A 1, bid_B 1] (accounts_AB (786, 0, 15) (786, 0, 15))) = Inl NoWinner"
  using reachable_AB_reputation_zero
  by (simp add: accounts_AB_def account_row_def bid_B_def run_eval)

end
